theory Spec2Isabelle
  imports Complex_Main "HOL-Library.Char_ord" "HOL-Library.List_Lexorder"
begin

section \<open>Python values shared by both modules\<close>

text \<open>
  Exceptions are values: the Python class and the message it was raised with. The
  source raises only built-in classes (\<^verbatim>\<open>ValueError\<close>, \<^verbatim>\<open>Exception\<close>) and lets library
  exceptions through (\<^verbatim>\<open>requests.exceptions.RequestException\<close> and its subclass
  \<^verbatim>\<open>Timeout\<close>, \<^verbatim>\<open>RuntimeError\<close> of torch, \<^verbatim>\<open>IndexError\<close>, \<^verbatim>\<open>KeyError\<close>, \<^verbatim>\<open>TypeError\<close>,
  \<^verbatim>\<open>AttributeError\<close>, \<^verbatim>\<open>OSError\<close>). \<^verbatim>\<open>str(e)\<close> is the message.
\<close>

datatype py_error =
    ValueError string
  | Exception string
  | RequestException string
  | RequestTimeout string
  | RuntimeError string
  | IndexError string
  | KeyError string
  | TypeError string
  | AttributeError string
  | OSError string

fun error_str :: "py_error \<Rightarrow> string" where
  "error_str (ValueError m) = m"
| "error_str (Exception m) = m"
| "error_str (RequestException m) = m"
| "error_str (RequestTimeout m) = m"
| "error_str (RuntimeError m) = m"
| "error_str (IndexError m) = m"
| "error_str (KeyError m) = m"
| "error_str (TypeError m) = m"
| "error_str (AttributeError m) = m"
| "error_str (OSError m) = m"

text \<open>
  \<^verbatim>\<open>except requests.exceptions.RequestException\<close> catches that class and its subclasses
  (\<^verbatim>\<open>Timeout\<close>, and the \<^verbatim>\<open>HTTPError\<close> of \<^verbatim>\<open>raise_for_status\<close>, which is kept under the
  constructor of its base class).
\<close>

fun is_request_exception :: "py_error \<Rightarrow> bool" where
  "is_request_exception (RequestException m) = True"
| "is_request_exception (RequestTimeout m) = True"
| "is_request_exception e = False"

text \<open>The values stored in the dictionaries that \<^verbatim>\<open>find_similar\<close> returns.\<close>

datatype py_value = VNone | VStr string | VInt int | VFloat real

type_synonym py_dict = "(string \<times> py_value) list"

definition dict_get :: "py_dict \<Rightarrow> string \<Rightarrow> py_value option" where
  "dict_get d k = map_of d k"

section \<open>thumbnail\_finder.py: the similarity index\<close>

subsection \<open>Paths\<close>

text \<open>
  A \<^verbatim>\<open>pathlib.Path\<close> is the list of its components. \<^verbatim>\<open>parent\<close> drops the last
  component, \<^verbatim>\<open>name\<close> is the last component, \<^verbatim>\<open>suffix\<close> is the part of the name from
  its last dot on when that dot is neither the first nor the last character, and
  \<^verbatim>\<open>str\<close> joins the components with a slash.
\<close>

type_synonym path = "string list"

definition path_parent :: "path \<Rightarrow> path" where
  "path_parent p = butlast p"

definition path_name :: "path \<Rightarrow> string" where
  "path_name p = (if p = [] then [] else last p)"

fun rfind_dot :: "string \<Rightarrow> nat option" where
  "rfind_dot [] = None"
| "rfind_dot (c # cs) =
     (case rfind_dot cs of
        Some i \<Rightarrow> Some (Suc i)
      | None \<Rightarrow> if c = CHR ''.'' then Some 0 else None)"

definition path_suffix :: "path \<Rightarrow> string" where
  "path_suffix p =
     (let name = path_name p in
      case rfind_dot name of
        None \<Rightarrow> []
      | Some i \<Rightarrow> if 0 < i \<and> i < length name - 1 then drop i name else [])"

fun path_str :: "path \<Rightarrow> string" where
  "path_str [] = ''.''"
| "path_str [c] = c"
| "path_str (c # cs) = c @ ''/'' @ path_str cs"

definition lower_char :: "char \<Rightarrow> char" where
  "lower_char c =
     (let n = (of_char c :: nat) in if 65 \<le> n \<and> n \<le> 90 then char_of (n + 32) else c)"

definition lower :: "string \<Rightarrow> string" where
  "lower s = map lower_char s"

definition image_extensions :: "string list" where
  "image_extensions = [''.jpg'', ''.jpeg'', ''.png'', ''.webp'']"

subsection \<open>The index and the finder object\<close>

text \<open>
  An entry of \<^verbatim>\<open>index_data["thumbnails"]\<close> is the dictionary with the keys
  \<^verbatim>\<open>path\<close>, \<^verbatim>\<open>filename\<close> and \<^verbatim>\<open>category\<close> that \<^verbatim>\<open>index_thumbnails\<close> appends; an embedding
  is the list of floats of \<^verbatim>\<open>tolist()\<close>, read as real numbers (rounding of the
  floating-point operations is outside the model). The key \<^verbatim>\<open>categories\<close> is absent
  from the dictionary that \<^verbatim>\<open>_load_or_create_index\<close> creates.
\<close>

record thumbnail =
  path :: string
  filename :: string
  category :: "string option"

record index_data =
  thumbnails :: "thumbnail list"
  embeddings :: "real list list"
  categories :: "string list option"

record finder =
  thumbnails_dir :: path
  index_file :: string
  index_data :: index_data

text \<open>
  The file system as the finder sees it: the JSON file stored under a name (if any),
  the paths that \<^verbatim>\<open>rglob('*')\<close> yields below a directory, and which of them are files.
  The CLIP model is the injected embedding function: \<^verbatim>\<open>encode_image\<close> is
  \<^verbatim>\<open>Image.open(p).convert('RGB')\<close> followed by \<^verbatim>\<open>model.encode\<close>, with \<open>None\<close> when either
  raises; \<^verbatim>\<open>encode_text\<close> is \<^verbatim>\<open>model.encode\<close> on a string. Opening the index file for
  writing and \<^verbatim>\<open>json.dump\<close> are taken to succeed.
\<close>

type_synonym disk = "string \<rightharpoonup> index_data"

record finder_env =
  rglob :: "path \<Rightarrow> path list"
  is_file :: "path \<Rightarrow> bool"
  encode_image :: "path \<Rightarrow> real list option"
  encode_text :: "string \<Rightarrow> real list"

definition load_or_create_index :: "disk \<Rightarrow> string \<Rightarrow> index_data" where
  "load_or_create_index dsk file =
     (case dsk file of
        Some d \<Rightarrow> d
      | None \<Rightarrow> \<lparr>thumbnails = [], embeddings = [], categories = None\<rparr>)"

definition finder_init :: "disk \<Rightarrow> path \<Rightarrow> string \<Rightarrow> finder" where
  "finder_init dsk dir file =
     \<lparr>thumbnails_dir = dir, index_file = file,
      index_data = load_or_create_index dsk file\<rparr>"

definition default_index_file :: string where
  "default_index_file = ''thumbnail_index.json''"

subsection \<open>index\_thumbnails\<close>

text \<open>
  The body of the loop over \<^verbatim>\<open>image_files\<close>: the three accumulators are
  \<^verbatim>\<open>thumbnails\<close>, \<^verbatim>\<open>embeddings\<close> and the set \<^verbatim>\<open>categories\<close> (a list without duplicates).
  An image that fails to load or embed is skipped by the \<^verbatim>\<open>except\<close> branch.
\<close>

definition index_one ::
  "finder_env \<Rightarrow> path \<Rightarrow> path \<Rightarrow> thumbnail list \<times> real list list \<times> string list
     \<Rightarrow> thumbnail list \<times> real list list \<times> string list" where
  "index_one env dir img_path acc =
     (case acc of (thumbs, embs, cats) \<Rightarrow>
        (case encode_image env img_path of
           None \<Rightarrow> (thumbs, embs, cats)
         | Some embedding \<Rightarrow>
             (let cat = (if path_parent img_path \<noteq> dir
                         then Some (path_name (path_parent img_path)) else None);
                  cats' = (case cat of None \<Rightarrow> cats | Some c \<Rightarrow> List.insert c cats)
              in (thumbs @ [\<lparr>path = path_str img_path, filename = path_name img_path,
                             category = cat\<rparr>],
                  embs @ [embedding], cats'))))"

fun index_loop ::
  "finder_env \<Rightarrow> path \<Rightarrow> path list \<Rightarrow> thumbnail list \<times> real list list \<times> string list
     \<Rightarrow> thumbnail list \<times> real list list \<times> string list" where
  "index_loop env dir [] acc = acc"
| "index_loop env dir (p # ps) acc = index_loop env dir ps (index_one env dir p acc)"

definition find_image_files :: "finder_env \<Rightarrow> path \<Rightarrow> path list" where
  "find_image_files env dir =
     filter (\<lambda>p. is_file env p \<and> lower (path_suffix p) \<in> set image_extensions)
       (rglob env dir)"

definition index_thumbnails :: "finder_env \<Rightarrow> finder \<times> disk \<Rightarrow> finder \<times> disk" where
  "index_thumbnails env st =
     (case st of (self, dsk) \<Rightarrow>
        (let image_files = find_image_files env (thumbnails_dir self) in
         if image_files = [] then (self, dsk)
         else
           (case index_loop env (thumbnails_dir self) image_files ([], [], []) of
              (thumbs, embs, cats) \<Rightarrow>
                (let idx = \<lparr>thumbnails = thumbs, embeddings = embs,
                            categories = Some (sort cats)\<rparr>
                 in (self\<lparr>index_data := idx\<rparr>, dsk(index_file self \<mapsto> idx))))))"

subsection \<open>find\_similar\<close>

text \<open>
  \<^verbatim>\<open>util.cos_sim\<close> of sentence-transformers normalises both arguments with
  \<^verbatim>\<open>torch.nn.functional.normalize\<close> (each row divided by the maximum of its Euclidean
  norm and \<^verbatim>\<open>eps = 1e-12\<close>) and multiplies the matrices. \<^verbatim>\<open>torch.tensor\<close> refuses a ragged
  list of rows, the matrix product refuses rows whose length differs from the
  query's, and an empty list of rows is the one-dimensional empty tensor, which
  \<^verbatim>\<open>cos_sim\<close> reads as a single row of length 0.
\<close>

definition dot :: "real list \<Rightarrow> real list \<Rightarrow> real" where
  "dot a b = sum_list (map (\<lambda>(x, y). x * y) (zip a b))"

definition norm2 :: "real list \<Rightarrow> real" where
  "norm2 a = sqrt (dot a a)"

definition normalize_eps :: real where
  "normalize_eps = 1 / 10 ^ 12"

definition normalize :: "real list \<Rightarrow> real list" where
  "normalize a = map (\<lambda>x. x / max (norm2 a) normalize_eps) a"

definition cos_sim :: "real list \<Rightarrow> real list list \<Rightarrow> py_error + real list" where
  "cos_sim q stored =
     (let rows = (if stored = [] then [[]] else stored) in
      if \<exists>r \<in> set rows. length r \<noteq> length (hd rows)
      then Inl (ValueError ''expected sequence of equal length'')
      else if length (hd rows) \<noteq> length q
      then Inl (RuntimeError ''mat1 and mat2 shapes cannot be multiplied'')
      else Inr (map (\<lambda>r. dot (normalize q) (normalize r)) rows))"

text \<open>
  \<^verbatim>\<open>torch.topk(similarities, k)\<close> returns the \<open>k\<close> largest values in descending order
  with their indices. The order among equal values is the library's own; here it is
  index order (a stable sort by descending value).
\<close>

definition topk :: "real list \<Rightarrow> nat \<Rightarrow> (nat \<times> real) list" where
  "topk sims k = take k (sort_key (\<lambda>(i, s). - s) (zip [0..<length sims] sims))"

definition search_query :: "string \<Rightarrow> string option \<Rightarrow> string" where
  "search_query topic pov =
     (let query = ''YouTube thumbnail about '' @ topic in
      case pov of
        None \<Rightarrow> query
      | Some p \<Rightarrow> if p \<noteq> [] then query @ '' from '' @ p @ '' perspective'' else query)"

definition make_result :: "thumbnail \<Rightarrow> real \<Rightarrow> nat \<Rightarrow> py_dict" where
  "make_result t score n =
     [(''path'', VStr (path t)),
      (''filename'', VStr (filename t)),
      (''similarity_score'', VFloat score),
      (''rank'', VInt (int n + 1))]"

fun collect_results ::
  "thumbnail list \<Rightarrow> (nat \<times> real) list \<Rightarrow> py_dict list \<Rightarrow> py_error + py_dict list" where
  "collect_results ths [] results = Inr results"
| "collect_results ths ((idx, score) # rest) results =
     (if idx < length ths
      then collect_results ths rest (results @ [make_result (ths ! idx) score (length results)])
      else Inl (IndexError ''list index out of range''))"

definition empty_index_error :: py_error where
  "empty_index_error = ValueError ''No thumbnails indexed. Run index_thumbnails() first.''"

definition find_similar ::
  "finder_env \<Rightarrow> finder \<Rightarrow> string \<Rightarrow> string option \<Rightarrow> int \<Rightarrow> py_error + py_dict list" where
  "find_similar env self topic pov top_k =
     (if thumbnails (index_data self) = [] then Inl empty_index_error
      else
        (let query_embedding = encode_text env (search_query topic pov) in
         case cos_sim query_embedding (embeddings (index_data self)) of
           Inl e \<Rightarrow> Inl e
         | Inr similarities \<Rightarrow>
             (let k = min top_k (int (length similarities)) in
              if k < 0 then Inl (RuntimeError ''selected index k out of range'')
              else collect_results (thumbnails (index_data self))
                     (topk similarities (nat k)) [])))"

definition get_thumbnail_count :: "finder \<Rightarrow> nat" where
  "get_thumbnail_count self = length (thumbnails (index_data self))"

subsection \<open>Reading a result, and the invariant of an index\<close>

text \<open>
  The score and the rank stored in a result dictionary, the keys it has, the
  invariant of the data model (one embedding per entry, all of one dimension), and
  the list of scores that \<^verbatim>\<open>find_similar\<close> ranks on a well-formed index.
\<close>

definition result_score :: "py_dict \<Rightarrow> real option" where
  "result_score r =
     (case dict_get r ''similarity_score'' of Some (VFloat s) \<Rightarrow> Some s | _ \<Rightarrow> None)"

definition result_rank :: "py_dict \<Rightarrow> int option" where
  "result_rank r = (case dict_get r ''rank'' of Some (VInt n) \<Rightarrow> Some n | _ \<Rightarrow> None)"

definition result_path :: "py_dict \<Rightarrow> string option" where
  "result_path r = (case dict_get r ''path'' of Some (VStr p) \<Rightarrow> Some p | _ \<Rightarrow> None)"


definition similarities :: "finder_env \<Rightarrow> finder \<Rightarrow> string \<Rightarrow> string option \<Rightarrow> real list" where
  "similarities env self topic pov =
     map (\<lambda>r. dot (normalize (encode_text env (search_query topic pov))) (normalize r))
       (embeddings (index_data self))"

subsection \<open>The example scenario: three files, two of them in the folder Tech\<close>

definition ex_dir :: path where
  "ex_dir = [''thumbnails'']"

definition ex_a :: path where
  "ex_a = [''thumbnails'', ''Tech'', ''a.jpg'']"

definition ex_b :: path where
  "ex_b = [''thumbnails'', ''Tech'', ''b.png'']"

definition ex_c :: path where
  "ex_c = [''thumbnails'', ''c.jpg'']"

text \<open>
  A stub embedding: the three images lie on the axes of the plane and every text is
  embedded as the first unit vector, so the cosine scores of a, b and c are 1, 0
  and -1.
\<close>

definition ex_env :: finder_env where
  "ex_env =
     \<lparr>rglob = (\<lambda>d. if d = ex_dir then [[''thumbnails'', ''Tech''], ex_a, ex_b, ex_c] else []),
      is_file = (\<lambda>p. p = ex_a \<or> p = ex_b \<or> p = ex_c),
      encode_image = (\<lambda>p. if p = ex_a then Some [1, 0] else if p = ex_b then Some [0, 1]
                            else if p = ex_c then Some [- 1, 0] else None),
      encode_text = (\<lambda>q. [1, 0])\<rparr>"

definition ex_index :: index_data where
  "ex_index =
     \<lparr>thumbnails =
        [\<lparr>path = ''thumbnails/Tech/a.jpg'', filename = ''a.jpg'', category = Some ''Tech''\<rparr>,
         \<lparr>path = ''thumbnails/Tech/b.png'', filename = ''b.png'', category = Some ''Tech''\<rparr>,
         \<lparr>path = ''thumbnails/c.jpg'', filename = ''c.jpg'', category = None\<rparr>],
      embeddings = [[1, 0], [0, 1], [- 1, 0]],
      categories = Some [''Tech'']\<rparr>"

definition ex_finder :: finder where
  "ex_finder = \<lparr>thumbnails_dir = ex_dir, index_file = default_index_file, index_data = ex_index\<rparr>"

text \<open>The same directory after its files were removed, and with unreadable images.\<close>

definition ex_env_no_files :: finder_env where
  "ex_env_no_files = ex_env\<lparr>rglob := (\<lambda>d. [])\<rparr>"

definition ex_env_unreadable :: finder_env where
  "ex_env_unreadable = ex_env\<lparr>encode_image := (\<lambda>p. None)\<rparr>"

section \<open>image\_generator.py: the generation orchestrator\<close>

subsection \<open>Strings and the reference path\<close>

text \<open>
  \<^verbatim>\<open>sub in s\<close> on strings, and \<^verbatim>\<open>s.strip()\<close>, which removes the characters that
  \<^verbatim>\<open>str.isspace\<close> accepts from both ends. A character of this theory is one byte; it
  stands for the Python character of the same code.
\<close>

fun is_prefix :: "string \<Rightarrow> string \<Rightarrow> bool" where
  "is_prefix [] s = True"
| "is_prefix (c # cs) [] = False"
| "is_prefix (c # cs) (d # ds) = (c = d \<and> is_prefix cs ds)"

fun contains :: "string \<Rightarrow> string \<Rightarrow> bool" where
  "contains sub [] = (sub = [])"
| "contains sub (c # cs) = (is_prefix sub (c # cs) \<or> contains sub cs)"

definition is_space :: "char \<Rightarrow> bool" where
  "is_space c =
     (let n = (of_char c :: nat) in
      (9 \<le> n \<and> n \<le> 13) \<or> (28 \<le> n \<and> n \<le> 32) \<or> n = 133 \<or> n = 160)"

definition strip :: "string \<Rightarrow> string" where
  "strip s = rev (dropWhile is_space (rev (dropWhile is_space s)))"

text \<open>
  The argument \<^verbatim>\<open>reference_image_path\<close> can be any Python value: \<^verbatim>\<open>None\<close>, a string, or
  a value of another type, of which only its truth value is ever read.
\<close>

datatype py_ref = RNone | RStr string | ROther bool

fun truthy :: "py_ref \<Rightarrow> bool" where
  "truthy RNone = False"
| "truthy (RStr s) = (s \<noteq> [])"
| "truthy (ROther b) = b"

text \<open>The validation block at the start of each of the five provider methods.\<close>

definition validate_reference :: "(string \<Rightarrow> bool) \<Rightarrow> py_ref \<Rightarrow> py_ref" where
  "validate_reference path_exists reference_image_path =
     (if truthy reference_image_path then
        (case reference_image_path of
           RStr s \<Rightarrow>
             if length (strip s) = 0 then RNone
             else if \<not> path_exists s then RNone
             else reference_image_path
         | _ \<Rightarrow> RNone)
      else reference_image_path)"

subsection \<open>JSON values and the Python operations the code applies to them\<close>

datatype json =
    JNull
  | JBool bool
  | JNum real
  | JStr string
  | JArr "json list"
  | JObj "(string \<times> json) list"

fun json_truthy :: "json \<Rightarrow> bool" where
  "json_truthy JNull = False"
| "json_truthy (JBool b) = b"
| "json_truthy (JNum x) = (x \<noteq> 0)"
| "json_truthy (JStr s) = (s \<noteq> [])"
| "json_truthy (JArr xs) = (xs \<noteq> [])"
| "json_truthy (JObj kvs) = (kvs \<noteq> [])"

fun is_dict :: "json \<Rightarrow> bool" where
  "is_dict (JObj kvs) = True"
| "is_dict j = False"

fun is_list :: "json \<Rightarrow> bool" where
  "is_list (JArr xs) = True"
| "is_list j = False"

text \<open>\<^verbatim>\<open>k in j\<close> for a string \<open>k\<close>: a key of a dictionary, an element of a list, a substring.\<close>

fun py_in :: "string \<Rightarrow> json \<Rightarrow> py_error + bool" where
  "py_in k (JObj kvs) = Inr (k \<in> set (map fst kvs))"
| "py_in k (JArr xs) = Inr (JStr k \<in> set xs)"
| "py_in k (JStr s) = Inr (contains k s)"
| "py_in k j = Inl (TypeError ''argument is not iterable'')"

text \<open>\<^verbatim>\<open>j[k]\<close> for a string \<open>k\<close>, \<^verbatim>\<open>j[0]\<close>, \<^verbatim>\<open>len(j)\<close>, \<^verbatim>\<open>for x in j\<close> and \<^verbatim>\<open>j.get(k)\<close>.\<close>

fun py_getitem :: "json \<Rightarrow> string \<Rightarrow> py_error + json" where
  "py_getitem (JObj kvs) k =
     (case map_of kvs k of Some v \<Rightarrow> Inr v | None \<Rightarrow> Inl (KeyError k))"
| "py_getitem (JArr xs) k = Inl (TypeError ''list indices must be integers or slices, not str'')"
| "py_getitem (JStr s) k = Inl (TypeError ''string indices must be integers'')"
| "py_getitem j k = Inl (TypeError ''object is not subscriptable'')"

fun py_first :: "json \<Rightarrow> py_error + json" where
  "py_first (JArr xs) =
     (case xs of [] \<Rightarrow> Inl (IndexError ''list index out of range'') | x # _ \<Rightarrow> Inr x)"
| "py_first (JStr s) =
     (case s of [] \<Rightarrow> Inl (IndexError ''string index out of range'') | c # _ \<Rightarrow> Inr (JStr [c]))"
| "py_first (JObj kvs) = Inl (KeyError ''0'')"
| "py_first j = Inl (TypeError ''object is not subscriptable'')"

fun py_len :: "json \<Rightarrow> py_error + nat" where
  "py_len (JArr xs) = Inr (length xs)"
| "py_len (JStr s) = Inr (length s)"
| "py_len (JObj kvs) = Inr (length kvs)"
| "py_len j = Inl (TypeError ''object has no len()'')"

fun py_iter :: "json \<Rightarrow> py_error + json list" where
  "py_iter (JArr xs) = Inr xs"
| "py_iter (JStr s) = Inr (map (\<lambda>c. JStr [c]) s)"
| "py_iter (JObj kvs) = Inr (map (\<lambda>kv. JStr (fst kv)) kvs)"
| "py_iter j = Inl (TypeError ''object is not iterable'')"

fun py_get :: "json \<Rightarrow> string \<Rightarrow> json \<Rightarrow> py_error + json" where
  "py_get (JObj kvs) k dflt = Inr (case map_of kvs k of Some v \<Rightarrow> v | None \<Rightarrow> dflt)"
| "py_get j k dflt = Inl (AttributeError ''object has no attribute get'')"

subsection \<open>The outside world and the trace of a call\<close>

text \<open>
  Every effect of a call is an event appended to a trace: a request to a provider,
  a sleep, a file written. The world answers a request as a function of the trace
  so far, so it may answer the same request differently at different times. The
  file system that the call reads (\<^verbatim>\<open>os.path.exists\<close>, \<^verbatim>\<open>open(p, 'rb').read()\<close>,
  \<^verbatim>\<open>PIL.Image.open\<close>) does not change during a call; writing the output file is taken
  to succeed. Request headers and request timeouts are not recorded.
\<close>

datatype event =
    GenaiGenerate string string bool
  | HttpPost string json
  | HttpGet string
  | ChatCompletion string
  | ImagesGenerate string
  | FalSubscribe json
  | Sleep nat
  | WriteFile string string

text \<open>
  The reply of \<^verbatim>\<open>model.generate_content\<close>: an exception, or a response with its
  \<^verbatim>\<open>image\<close> (if it has a true one) and, for each of its \<^verbatim>\<open>parts\<close>, the \<^verbatim>\<open>inline_data.data\<close>
  of the part (if it has a true \<^verbatim>\<open>inline_data\<close>).
\<close>

datatype genai_reply =
    GenaiRaise py_error
  | GenaiResponse "string option" "string option list"

text \<open>A \<^verbatim>\<open>requests.Response\<close>; \<^verbatim>\<open>json_body\<close> is what \<^verbatim>\<open>response.json()\<close> returns or raises.\<close>

record http_response =
  status_code :: int
  response_text :: string
  json_body :: "py_error + json"
  content :: string

record world =
  path_exists :: "string \<Rightarrow> bool"
  read_file :: "string \<Rightarrow> string option"
  pil_open :: "string \<Rightarrow> bool"
  b64encode :: "string \<Rightarrow> string"
  b64decode :: "string \<Rightarrow> py_error + string"
  json_to_str :: "json \<Rightarrow> string"
  genai_generate :: "event list \<Rightarrow> string \<Rightarrow> string \<Rightarrow> bool \<Rightarrow> genai_reply"
  http_post :: "event list \<Rightarrow> string \<Rightarrow> json \<Rightarrow> py_error + http_response"
  http_get :: "event list \<Rightarrow> string \<Rightarrow> py_error + http_response"
  chat_completion :: "event list \<Rightarrow> string \<Rightarrow> py_error + string"
  images_generate :: "event list \<Rightarrow> string \<Rightarrow> py_error + string"
  fal_installed :: bool
  fal_subscribe :: "event list \<Rightarrow> json \<Rightarrow> py_error + json"

record generator =
  service :: string
  api_key :: string

definition raise_for_status :: "http_response \<Rightarrow> py_error + unit" where
  "raise_for_status response =
     (if 400 \<le> status_code response \<and> status_code response < 600
      then Inl (RequestException ''HTTPError'') else Inr ())"

text \<open>\<^verbatim>\<open>str(v)\<close> inside an f-string, and \<^verbatim>\<open>a or b\<close> on two JSON values.\<close>

definition py_str :: "world \<Rightarrow> json \<Rightarrow> string" where
  "py_str w j =
     (case j of
        JStr s \<Rightarrow> s
      | JNull \<Rightarrow> ''None''
      | JBool b \<Rightarrow> (if b then ''True'' else ''False'')
      | _ \<Rightarrow> json_to_str w j)"

definition py_or :: "json \<Rightarrow> json \<Rightarrow> json" where
  "py_or a b = (if json_truthy a then a else b)"

subsection \<open>Helpers shared by the provider methods\<close>

definition and_then :: "py_error + 'a \<Rightarrow> ('a \<Rightarrow> py_error + 'b) \<Rightarrow> py_error + 'b" where
  "and_then m f = (case m of Inl e \<Rightarrow> Inl e | Inr x \<Rightarrow> f x)"

definition fmt_opt :: "string option \<Rightarrow> string" where
  "fmt_opt v = (case v of None \<Rightarrow> ''None'' | Some s \<Rightarrow> s)"

definition decode_json :: "world \<Rightarrow> json \<Rightarrow> py_error + string" where
  "decode_json w j =
     (case j of
        JStr s \<Rightarrow> b64decode w s
      | _ \<Rightarrow> Inl (TypeError ''argument should be a bytes-like object or ASCII string''))"

text \<open>
  Two characters of the source lie outside ASCII: the cross mark U+274C in a message
  and the box-drawing line U+2501 in a prompt template. Each is one Python
  character and is written here as one stand-in byte.
\<close>

definition cross_mark :: char where
  "cross_mark = CHR 0x80"

definition box_line_char :: char where
  "box_line_char = CHR 0x81"

subsection \<open>generate\_gemini\<close>

definition gemini_enhanced_prompt :: "string \<Rightarrow> string" where
  "gemini_enhanced_prompt prompt =
     ''Create a professional YouTube thumbnail (16:9 aspect ratio): '' @ prompt @
     ''\<newline>\<newline>Style requirements:\<newline>- High quality, professional design\<newline>- Eye-catching and engaging\<newline>- Clear, bold visual elements\<newline>- Suitable for YouTube platform\<newline>- 16:9 landscape format\<newline>- Modern and polished aesthetic\<newline>\<newline>Avoid: podcast microphones, headphones, podcast studio setup''"

definition gemini_models_to_try :: "string list" where
  "gemini_models_to_try =
     [''gemini-2.5-flash-image'',
      ''gemini-2.5-flash-image-preview'',
      ''gemini-2.0-flash-preview-image-generation'']"

definition gemini_endpoints_to_try :: "(string \<times> string) list" where
  "gemini_endpoints_to_try =
     [(''Gemini 2.5 Flash Image'', ''gemini-2.5-flash-image''),
      (''Gemini 2.5 Flash Image Preview'', ''gemini-2.5-flash-image-preview''),
      (''Gemini 2.0 Flash Image Generation'', ''gemini-2.0-flash-preview-image-generation''),
      (''Gemini Exp 1206'', ''gemini-exp-1206'')]"

text \<open>
  The test \<^verbatim>\<open>reference_image_path and isinstance(reference_image_path, str) and
  len(reference_image_path.strip()) > 0\<close> that both loops repeat.
\<close>

definition gemini_has_reference :: "py_ref \<Rightarrow> bool" where
  "gemini_has_reference reference_image_path =
     (case reference_image_path of
        RStr s \<Rightarrow> s \<noteq> [] \<and> 0 < length (strip s)
      | _ \<Rightarrow> False)"

definition ref_path :: "py_ref \<Rightarrow> string" where
  "ref_path reference_image_path = (case reference_image_path of RStr s \<Rightarrow> s | _ \<Rightarrow> [])"

text \<open>
  One call of \<^verbatim>\<open>model.generate_content\<close> with the prompt alone, and the request of one
  pass of the SDK loop: with a reference that exists and that PIL opens, the editing
  request is made first and, if it raises, the inner \<^verbatim>\<open>except\<close> repeats the request
  with the prompt alone.
\<close>

definition genai_text_call ::
  "world \<Rightarrow> string \<Rightarrow> string \<Rightarrow> event list \<Rightarrow> genai_reply \<times> event list" where
  "genai_text_call w model_name enhanced_prompt tr =
     (genai_generate w tr model_name enhanced_prompt False,
      tr @ [GenaiGenerate model_name enhanced_prompt False])"

definition gemini_sdk_request ::
  "world \<Rightarrow> string \<Rightarrow> string \<Rightarrow> py_ref \<Rightarrow> event list \<Rightarrow> genai_reply \<times> event list" where
  "gemini_sdk_request w model_name enhanced_prompt reference_image_path tr =
     (if gemini_has_reference reference_image_path then
        (if \<not> path_exists w (ref_path reference_image_path)
         then genai_text_call w model_name enhanced_prompt tr
         else if pil_open w (ref_path reference_image_path) then
           (let edit_prompt = ''Edit this image to: '' @ enhanced_prompt;
                tr1 = tr @ [GenaiGenerate model_name edit_prompt True]
            in case genai_generate w tr model_name edit_prompt True of
                 GenaiRaise img_error \<Rightarrow> genai_text_call w model_name enhanced_prompt tr1
               | GenaiResponse img parts \<Rightarrow> (GenaiResponse img parts, tr1))
         else genai_text_call w model_name enhanced_prompt tr)
      else genai_text_call w model_name enhanced_prompt tr)"

text \<open>
  Saving the image of a response: \<open>True\<close> when the method returned \<^verbatim>\<open>output_path\<close>,
  \<open>False\<close> when the loop goes on to the next model.
\<close>

definition gemini_sdk_save ::
  "genai_reply \<Rightarrow> string \<Rightarrow> event list \<Rightarrow> bool \<times> event list" where
  "gemini_sdk_save reply output_path tr =
     (case reply of
        GenaiRaise e \<Rightarrow> (False, tr)
      | GenaiResponse (Some img) parts \<Rightarrow> (True, tr @ [WriteFile output_path img])
      | GenaiResponse None parts \<Rightarrow>
          (case List.map_filter (\<lambda>part. part) parts of
             [] \<Rightarrow> (False, tr)
           | img_data # _ \<Rightarrow> (True, tr @ [WriteFile output_path img_data])))"

fun gemini_sdk_loop ::
  "world \<Rightarrow> string \<Rightarrow> string \<Rightarrow> py_ref \<Rightarrow> string list \<Rightarrow> event list \<Rightarrow> bool \<times> event list" where
  "gemini_sdk_loop w enhanced_prompt output_path reference_image_path [] tr = (False, tr)"
| "gemini_sdk_loop w enhanced_prompt output_path reference_image_path (model_name # rest) tr =
     (case gemini_sdk_request w model_name enhanced_prompt reference_image_path tr of
        (reply, tr1) \<Rightarrow>
          (case gemini_sdk_save reply output_path tr1 of
             (True, tr2) \<Rightarrow> (True, tr2)
           | (False, tr2) \<Rightarrow>
               gemini_sdk_loop w enhanced_prompt output_path reference_image_path rest tr2))"

definition gemini_url :: "string \<Rightarrow> string \<Rightarrow> string" where
  "gemini_url key model =
     ''https://generativelanguage.googleapis.com/v1beta/models/'' @ model @
     '':generateContent?key='' @ key"

definition gemini_content_parts :: "world \<Rightarrow> string \<Rightarrow> py_ref \<Rightarrow> json list" where
  "gemini_content_parts w enhanced_prompt reference_image_path =
     (let use_reference =
            (gemini_has_reference reference_image_path \<and>
             path_exists w (ref_path reference_image_path))
      in if use_reference then
           (case read_file w (ref_path reference_image_path) of
              Some bytes \<Rightarrow>
                [JObj [(''inline_data'',
                        JObj [(''mime_type'', JStr ''image/jpeg''),
                              (''data'', JStr (b64encode w bytes))])],
                 JObj [(''text'', JStr (''Edit this image to: '' @ enhanced_prompt))]]
            | None \<Rightarrow> [JObj [(''text'', JStr enhanced_prompt)]])
         else [JObj [(''text'', JStr enhanced_prompt)]])"

definition gemini_payload :: "json list \<Rightarrow> json" where
  "gemini_payload content_parts = JObj [(''contents'', JArr [JObj [(''parts'', JArr content_parts)]])]"

text \<open>
  Parsing a response with status 200: \<^verbatim>\<open>image_data\<close> stays \<^verbatim>\<open>None\<close> (here \<open>JNull\<close>) unless
  the first candidate has content parts of which one has \<^verbatim>\<open>inline_data\<close>.
\<close>

fun gemini_scan_parts :: "json list \<Rightarrow> py_error + json" where
  "gemini_scan_parts [] = Inr JNull"
| "gemini_scan_parts (part # rest) =
     and_then (py_in ''inline_data'' part) (\<lambda>found.
       if found then
         and_then (py_getitem part ''inline_data'') (\<lambda>inline. py_getitem inline ''data'')
       else gemini_scan_parts rest)"

definition gemini_image_data :: "json \<Rightarrow> py_error + json" where
  "gemini_image_data result =
     and_then (py_in ''candidates'' result) (\<lambda>has_candidates.
       if \<not> has_candidates then Inr JNull
       else
         and_then (py_getitem result ''candidates'') (\<lambda>candidates.
         and_then (py_len candidates) (\<lambda>n.
           if \<not> 0 < n then Inr JNull
           else
             and_then (py_first candidates) (\<lambda>candidate.
             and_then (py_in ''content'' candidate) (\<lambda>has_content.
               if \<not> has_content then Inr JNull
               else
                 and_then (py_getitem candidate ''content'') (\<lambda>cont.
                 and_then (py_in ''parts'' cont) (\<lambda>has_parts.
                   if \<not> has_parts then Inr JNull
                   else
                     and_then (py_getitem cont ''parts'') (\<lambda>parts.
                     and_then (py_iter parts) gemini_scan_parts))))))))"

text \<open>
  The branch without image data prints \<^verbatim>\<open>list(result.keys())\<close> and the keys of the first
  candidate before it sets \<^verbatim>\<open>last_error\<close>; on a value that is not a dictionary the
  print raises instead.
\<close>

definition gemini_no_image :: "json \<Rightarrow> py_error + unit" where
  "gemini_no_image result =
     (if \<not> is_dict result then Inl (AttributeError ''object has no attribute keys'')
      else
        and_then (py_in ''candidates'' result) (\<lambda>has_candidates.
          if \<not> has_candidates then Inr ()
          else
            and_then (py_getitem result ''candidates'') (\<lambda>candidates.
            and_then (py_len candidates) (\<lambda>n.
              if \<not> 0 < n then Inr ()
              else
                and_then (py_first candidates) (\<lambda>candidate.
                  if is_dict candidate then Inr ()
                  else Inl (AttributeError ''object has no attribute keys''))))))"

text \<open>
  The body of the REST loop for one endpoint: \<open>Inr\<close> the output path when the method
  returned, \<open>Inl\<close> the new value of \<^verbatim>\<open>last_error\<close> when the loop goes on. Every exception
  raised inside the body is caught there.
\<close>

definition gemini_rest_response ::
  "world \<Rightarrow> string \<Rightarrow> string \<Rightarrow> http_response \<Rightarrow> event list \<Rightarrow> (string + string) \<times> event list" where
  "gemini_rest_response w name output_path response tr =
     (if status_code response = 200 then
        (case json_body response of
           Inl e \<Rightarrow> (Inl (error_str e), tr)
         | Inr result \<Rightarrow>
             (case gemini_image_data result of
                Inl e \<Rightarrow> (Inl (error_str e), tr)
              | Inr image_data \<Rightarrow>
                  if json_truthy image_data then
                    (case decode_json w image_data of
                       Inl decode_error \<Rightarrow>
                         (Inl (''Failed to decode image: '' @ error_str decode_error), tr)
                     | Inr img_bytes \<Rightarrow> (Inr output_path, tr @ [WriteFile output_path img_bytes]))
                  else
                    (case gemini_no_image result of
                       Inl e \<Rightarrow> (Inl (error_str e), tr)
                     | Inr u \<Rightarrow> (Inl ''No image data in response'', tr))))
      else if status_code response = 404 then (Inl (name @ '' not available''), tr)
      else if status_code response = 403 then
        (let error_text = response_text response in
         if contains ''API key not valid'' error_text
         then (Inl (cross_mark #
                 '' GOOGLE_API_KEY is invalid. Please check your API key in .env file''), tr)
         else if contains ''Imagen'' error_text \<or> contains ''image generation'' (lower error_text)
         then (Inl ''Imagen API not enabled'', tr)
         else (Inl (''Permission denied: '' @ error_text), tr))
      else (Inl (name @ '' failed: '' @ take 100 (response_text response)), tr))"

definition gemini_rest_attempt ::
  "world \<Rightarrow> string \<Rightarrow> string \<Rightarrow> string \<Rightarrow> py_ref \<Rightarrow> string \<times> string \<Rightarrow> event list
     \<Rightarrow> (string + string) \<times> event list" where
  "gemini_rest_attempt w key enhanced_prompt output_path reference_image_path endpoint_config tr =
     (case endpoint_config of (name, model) \<Rightarrow>
        (let url = gemini_url key model;
             payload = gemini_payload (gemini_content_parts w enhanced_prompt reference_image_path);
             tr1 = tr @ [HttpPost url payload]
         in case http_post w tr url payload of
              Inl (RequestTimeout m) \<Rightarrow> (Inl (name @ '' timed out''), tr1)
            | Inl e \<Rightarrow> (Inl (error_str e), tr1)
            | Inr response \<Rightarrow> gemini_rest_response w name output_path response tr1))"

fun gemini_rest_loop ::
  "world \<Rightarrow> string \<Rightarrow> string \<Rightarrow> string \<Rightarrow> py_ref \<Rightarrow> (string \<times> string) list \<Rightarrow> string option
     \<Rightarrow> event list \<Rightarrow> (string option + string) \<times> event list" where
  "gemini_rest_loop w key enhanced_prompt output_path reference_image_path [] last_error tr =
     (Inl last_error, tr)"
| "gemini_rest_loop w key enhanced_prompt output_path reference_image_path (endpoint_config # rest)
     last_error tr =
     (case gemini_rest_attempt w key enhanced_prompt output_path reference_image_path
             endpoint_config tr of
        (Inr p, tr1) \<Rightarrow> (Inr p, tr1)
      | (Inl err, tr1) \<Rightarrow>
          gemini_rest_loop w key enhanced_prompt output_path reference_image_path rest
            (Some err) tr1)"

text \<open>
  One pass through the candidate chain: the three SDK models, then the four REST
  endpoints. \<open>Inr\<close> is the returned path, \<open>Inl\<close> the \<^verbatim>\<open>last_error\<close> after all failed.
\<close>

definition gemini_candidates ::
  "world \<Rightarrow> string \<Rightarrow> string \<Rightarrow> string \<Rightarrow> py_ref \<Rightarrow> event list
     \<Rightarrow> (string option + string) \<times> event list" where
  "gemini_candidates w key enhanced_prompt output_path reference_image_path tr =
     (case gemini_sdk_loop w enhanced_prompt output_path reference_image_path
             gemini_models_to_try tr of
        (True, tr1) \<Rightarrow> (Inr output_path, tr1)
      | (False, tr1) \<Rightarrow>
          gemini_rest_loop w key enhanced_prompt output_path reference_image_path
            gemini_endpoints_to_try None tr1)"

definition gemini_failure :: "string option \<Rightarrow> py_error" where
  "gemini_failure last_error =
     Exception (''Gemini image generation failed with all models. Last error: '' @
       fmt_opt last_error @ ''. Try DALL-E 3 or check your API key permissions.'')"

function generate_gemini ::
  "world \<Rightarrow> generator \<Rightarrow> string \<Rightarrow> string \<Rightarrow> py_ref \<Rightarrow> event list
     \<Rightarrow> (py_error + string) \<times> event list" where
  "generate_gemini w self prompt output_path reference_image_path tr =
     (case gemini_candidates w (api_key self) (gemini_enhanced_prompt prompt) output_path
             (validate_reference (path_exists w) reference_image_path) tr of
        (Inr p, tr1) \<Rightarrow> (Inr p, tr1)
      | (Inl last_error, tr1) \<Rightarrow>
          if truthy (validate_reference (path_exists w) reference_image_path)
          then generate_gemini w self (gemini_enhanced_prompt prompt) output_path RNone tr1
          else (Inl (gemini_failure last_error), tr1))"
  by pat_completeness auto
termination
  by (relation "measure (\<lambda>(w, self, prompt, output_path, reference_image_path, tr).
        if reference_image_path = RNone then 0 else 1)")
     (auto simp: validate_reference_def)

declare generate_gemini.simps [simp del]

subsection \<open>Downloading and extracting an image\<close>

text \<open>
  \<^verbatim>\<open>requests.get(url)\<close>, \<^verbatim>\<open>raise_for_status()\<close> and writing \<^verbatim>\<open>content\<close> to the output path.
  A URL that is not a string is refused by \<^verbatim>\<open>requests\<close> before anything is sent.
\<close>

definition download ::
  "world \<Rightarrow> json \<Rightarrow> string \<Rightarrow> event list \<Rightarrow> (py_error + string) \<times> event list" where
  "download w url output_path tr =
     (case url of
        JStr u \<Rightarrow>
          (let tr1 = tr @ [HttpGet u] in
           case http_get w tr u of
             Inl e \<Rightarrow> (Inl e, tr1)
           | Inr img_response \<Rightarrow>
               (case raise_for_status img_response of
                  Inl e \<Rightarrow> (Inl e, tr1)
                | Inr u' \<Rightarrow>
                    (Inr output_path, tr1 @ [WriteFile output_path (content img_response)])))
      | _ \<Rightarrow> (Inl (RequestException ''Invalid URL''), tr))"

definition save_base64 ::
  "world \<Rightarrow> json \<Rightarrow> string \<Rightarrow> event list \<Rightarrow> (py_error + string) \<times> event list" where
  "save_base64 w b64 output_path tr =
     (case decode_json w b64 of
        Inl e \<Rightarrow> (Inl e, tr)
      | Inr img_data \<Rightarrow> (Inr output_path, tr @ [WriteFile output_path img_data]))"

text \<open>
  The choice between the keys \<^verbatim>\<open>url\<close> and \<^verbatim>\<open>base64\<close> of \<^verbatim>\<open>image_info\<close>, in the order
  given: the value under the key \<^verbatim>\<open>url\<close> is downloaded, the value under \<^verbatim>\<open>base64\<close> is
  decoded, and the method returns. \<open>Inr None\<close> when \<^verbatim>\<open>image_info\<close> has neither key.
\<close>

definition save_value ::
  "world \<Rightarrow> string \<Rightarrow> json \<Rightarrow> string \<Rightarrow> event list \<Rightarrow> (py_error + string) \<times> event list" where
  "save_value w k v output_path tr =
     (if k = ''url'' then download w v output_path tr else save_base64 w v output_path tr)"

definition returned ::
  "(py_error + string) \<times> event list \<Rightarrow> (py_error + string option) \<times> event list" where
  "returned r = (case r of (Inl e, tr1) \<Rightarrow> (Inl e, tr1) | (Inr p, tr1) \<Rightarrow> (Inr (Some p), tr1))"

definition save_by_keys ::
  "world \<Rightarrow> string \<Rightarrow> string \<Rightarrow> json \<Rightarrow> string \<Rightarrow> event list
     \<Rightarrow> (py_error + string option) \<times> event list" where
  "save_by_keys w first_key second_key image_info output_path tr =
     (case py_in first_key image_info of
        Inl e \<Rightarrow> (Inl e, tr)
      | Inr True \<Rightarrow>
          (case py_getitem image_info first_key of
             Inl e \<Rightarrow> (Inl e, tr)
           | Inr v \<Rightarrow> returned (save_value w first_key v output_path tr))
      | Inr False \<Rightarrow>
          (case py_in second_key image_info of
             Inl e \<Rightarrow> (Inl e, tr)
           | Inr True \<Rightarrow>
               (case py_getitem image_info second_key of
                  Inl e \<Rightarrow> (Inl e, tr)
                | Inr v \<Rightarrow> returned (save_value w second_key v output_path tr))
           | Inr False \<Rightarrow> (Inr None, tr)))"

definition extract_freepik_image ::
  "world \<Rightarrow> json \<Rightarrow> string \<Rightarrow> event list \<Rightarrow> (py_error + string) \<times> event list" where
  "extract_freepik_image w result output_path tr =
     (case and_then (py_get result ''data'' JNull) (\<lambda>a.
             if json_truthy a then Inr a
             else and_then (py_get result ''output'' JNull) (\<lambda>b.
               if json_truthy b then Inr b else py_get result ''result'' JNull)) of
        Inl e \<Rightarrow> (Inl e, tr)
      | Inr image_data \<Rightarrow>
          (case (case image_data of
                   JArr xs \<Rightarrow> (case xs of [] \<Rightarrow> None | x # _ \<Rightarrow> Some x)
                 | JObj kvs \<Rightarrow> Some image_data
                 | _ \<Rightarrow> None) of
             None \<Rightarrow> (Inl (Exception (''Unexpected response format: '' @ py_str w result)), tr)
           | Some image_info \<Rightarrow>
               (case save_by_keys w ''url'' ''base64'' image_info output_path tr of
                  (Inl e, tr1) \<Rightarrow> (Inl e, tr1)
                | (Inr (Some p), tr1) \<Rightarrow> (Inr p, tr1)
                | (Inr None, tr1) \<Rightarrow>
                    (Inl (Exception (''No image URL or base64 found in response: '' @
                            py_str w image_info)), tr1))))"

subsection \<open>\_poll\_freepik\_job\<close>

definition max_attempts :: nat where
  "max_attempts = 60"

definition poll_status :: "json \<Rightarrow> py_error + string" where
  "poll_status result =
     and_then (py_get result ''status'' (JStr [])) (\<lambda>s.
       case s of
         JStr t \<Rightarrow> Inr (lower t)
       | _ \<Rightarrow> Inl (AttributeError ''object has no attribute lower''))"

definition timed_out :: py_error where
  "timed_out = Exception ''Generation timed out''"

definition generation_failed :: "string \<Rightarrow> py_error" where
  "generation_failed error_msg = Exception (''Generation failed: '' @ error_msg)"

text \<open>The branch for the status \<^verbatim>\<open>completed\<close> or \<^verbatim>\<open>success\<close>: it returns or raises.\<close>

definition poll_freepik_completed ::
  "world \<Rightarrow> json \<Rightarrow> string \<Rightarrow> event list \<Rightarrow> (py_error + string) \<times> event list" where
  "poll_freepik_completed w result output_path tr =
     (let not_found = Exception ''Image URL not found in completed job'' in
      case and_then (py_in ''data'' result) (\<lambda>has_data.
             if has_data then and_then (py_getitem result ''data'') (\<lambda>d. Inr (Some d))
             else Inr None) of
        Inl e \<Rightarrow> (Inl e, tr)
      | Inr None \<Rightarrow> (Inl not_found, tr)
      | Inr (Some d) \<Rightarrow>
          if is_list d then
            (case py_first d of
               Inl e \<Rightarrow> (Inl e, tr)
             | Inr image_info \<Rightarrow>
                 (case save_by_keys w ''url'' ''base64'' image_info output_path tr of
                    (Inl e, tr1) \<Rightarrow> (Inl e, tr1)
                  | (Inr (Some p), tr1) \<Rightarrow> (Inr p, tr1)
                  | (Inr None, tr1) \<Rightarrow> (Inl not_found, tr1)))
          else (Inl not_found, tr))"

text \<open>
  The statements of the \<^verbatim>\<open>try\<close> block before its \<^verbatim>\<open>time.sleep(2)\<close>: \<open>Inr (Some p)\<close> when
  the method returned \<open>p\<close>, \<open>Inr None\<close> when the status is not final, \<open>Inl e\<close> when \<open>e\<close>
  was raised.
\<close>

definition poll_freepik_try ::
  "world \<Rightarrow> string \<Rightarrow> string \<Rightarrow> event list \<Rightarrow> (py_error + string option) \<times> event list" where
  "poll_freepik_try w status_url output_path tr =
     (let tr1 = tr @ [HttpGet status_url] in
      case and_then (http_get w tr status_url) (\<lambda>response.
           and_then (raise_for_status response) (\<lambda>u.
           and_then (json_body response) (\<lambda>result.
           and_then (poll_status result) (\<lambda>status. Inr (result, status))))) of
        Inl e \<Rightarrow> (Inl e, tr1)
      | Inr (result, status) \<Rightarrow>
          if status = ''completed'' \<or> status = ''success'' then
            returned (poll_freepik_completed w result output_path tr1)
          else if status = ''failed'' \<or> status = ''error'' then
            (case and_then (py_get result ''message'' (JStr ''Unknown error''))
                    (\<lambda>m. py_get result ''error'' m) of
               Inl e \<Rightarrow> (Inl e, tr1)
             | Inr error_msg \<Rightarrow> (Inl (generation_failed (py_str w error_msg)), tr1))
          else (Inr None, tr1))"

text \<open>
  One pass of the loop. \<open>Some r\<close>: the method ends with \<open>r\<close>. \<open>None\<close>: the pass slept
  two seconds and the loop goes on. A \<^verbatim>\<open>RequestException\<close> is swallowed except in the
  last pass.
\<close>

definition poll_freepik_attempt ::
  "world \<Rightarrow> string \<Rightarrow> string \<Rightarrow> nat \<Rightarrow> event list
     \<Rightarrow> (py_error + string) option \<times> event list" where
  "poll_freepik_attempt w status_url output_path attempt tr =
     (case poll_freepik_try w status_url output_path tr of
        (Inr (Some p), tr1) \<Rightarrow> (Some (Inr p), tr1)
      | (Inr None, tr1) \<Rightarrow> (None, tr1 @ [Sleep 2])
      | (Inl e, tr1) \<Rightarrow>
          if is_request_exception e then
            (if attempt = max_attempts - 1 then (Some (Inl e), tr1)
             else (None, tr1 @ [Sleep 2]))
          else (Some (Inl e), tr1))"

fun poll_freepik_loop ::
  "world \<Rightarrow> string \<Rightarrow> string \<Rightarrow> nat list \<Rightarrow> event list \<Rightarrow> (py_error + string) \<times> event list" where
  "poll_freepik_loop w status_url output_path [] tr = (Inl timed_out, tr)"
| "poll_freepik_loop w status_url output_path (attempt # rest) tr =
     (case poll_freepik_attempt w status_url output_path attempt tr of
        (Some r, tr1) \<Rightarrow> (r, tr1)
      | (None, tr1) \<Rightarrow> poll_freepik_loop w status_url output_path rest tr1)"

definition freepik_status_url :: "world \<Rightarrow> json \<Rightarrow> string" where
  "freepik_status_url w job_id = ''https://api.freepik.com/v1/ai/text-to-image/'' @ py_str w job_id"

definition poll_freepik_job ::
  "world \<Rightarrow> json \<Rightarrow> string \<Rightarrow> event list \<Rightarrow> (py_error + string) \<times> event list" where
  "poll_freepik_job w job_id output_path tr =
     poll_freepik_loop w (freepik_status_url w job_id) output_path [0..<max_attempts] tr"

subsection \<open>generate\_freepik\<close>

definition freepik_reference_prompt :: "string \<Rightarrow> string" where
  "freepik_reference_prompt prompt =
     ''Modify the attached image and create a YouTube thumbnail by making these changes: '' @
     prompt @
     ''. Keep the same layout and composition, only change the specified elements. Maintain professional YouTube thumbnail quality at 16:9 aspect ratio.''"

definition freepik_reference_endpoints :: "string \<Rightarrow> string \<Rightarrow> (string \<times> json) list" where
  "freepik_reference_endpoints image_base64 enhanced_prompt =
     [(''https://api.freepik.com/v1/ai/reimagine'',
       JObj [(''image'', JStr image_base64), (''prompt'', JStr enhanced_prompt),
             (''num_images'', JNum 1)]),
      (''https://api.freepik.com/v1/ai/image-variations'',
       JObj [(''image'', JStr image_base64), (''prompt'', JStr enhanced_prompt),
             (''num_variations'', JNum 1)])]"

text \<open>
  The loop of \<^verbatim>\<open>_freepik_with_reference\<close>: \<open>Some p\<close> when the method returned \<open>p\<close>,
  \<open>None\<close> when the endpoint answered with another status than 200 or an exception
  was raised and caught, so that the next endpoint is tried; after the last, the
  method raises.
\<close>

definition freepik_reference_attempt ::
  "world \<Rightarrow> string \<Rightarrow> string \<times> json \<Rightarrow> event list \<Rightarrow> string option \<times> event list" where
  "freepik_reference_attempt w output_path endpoint tr =
     (case endpoint of (url, payload) \<Rightarrow>
        (let tr1 = tr @ [HttpPost url payload] in
         case http_post w tr url payload of
           Inl e \<Rightarrow> (None, tr1)
         | Inr response \<Rightarrow>
             if status_code response = 200 then
               (case json_body response of
                  Inl e \<Rightarrow> (None, tr1)
                | Inr result \<Rightarrow>
                    (case extract_freepik_image w result output_path tr1 of
                       (Inl e, tr2) \<Rightarrow> (None, tr2)
                     | (Inr p, tr2) \<Rightarrow> (Some p, tr2)))
             else (None, tr1)))"

definition freepik_all_failed :: py_error where
  "freepik_all_failed =
     Exception ''All Freepik reference-based endpoints failed. Using text-to-image instead.''"

fun freepik_reference_loop ::
  "world \<Rightarrow> string \<Rightarrow> (string \<times> json) list \<Rightarrow> event list \<Rightarrow> (py_error + string) \<times> event list" where
  "freepik_reference_loop w output_path [] tr = (Inl freepik_all_failed, tr)"
| "freepik_reference_loop w output_path (endpoint # rest) tr =
     (case freepik_reference_attempt w output_path endpoint tr of
        (Some p, tr1) \<Rightarrow> (Inr p, tr1)
      | (None, tr1) \<Rightarrow> freepik_reference_loop w output_path rest tr1)"

definition freepik_with_reference ::
  "world \<Rightarrow> string \<Rightarrow> string \<Rightarrow> py_ref \<Rightarrow> event list \<Rightarrow> (py_error + string) \<times> event list" where
  "freepik_with_reference w prompt output_path reference_image_path tr =
     (case read_file w (ref_path reference_image_path) of
        None \<Rightarrow> (Inl (OSError ''cannot read the reference image''), tr)
      | Some bytes \<Rightarrow>
          freepik_reference_loop w output_path
            (freepik_reference_endpoints (b64encode w bytes) (freepik_reference_prompt prompt)) tr)"

definition freepik_text_prompt :: "string \<Rightarrow> string" where
  "freepik_text_prompt prompt =
     ''Create a professional YouTube thumbnail (16:9 landscape format, 1920x1080): '' @ prompt @
     ''. High quality, eye-catching design. Bold colors, modern aesthetic, engaging visual elements. Professional YouTube thumbnail style.''"

definition freepik_payload :: "string \<Rightarrow> json" where
  "freepik_payload enhanced_prompt =
     JObj [(''prompt'', JStr enhanced_prompt),
           (''negative_prompt'',
            JStr ''blurry, low quality, distorted, ugly, bad anatomy, podcast microphone, headphones''),
           (''guidance_scale'', JNum 7.5),
           (''num_images'', JNum 1),
           (''image'', JObj [(''size'', JStr ''landscape_16_9'')]),
           (''styling'', JObj [(''style'', JStr ''photo''), (''color'', JStr ''vibrant''),
                               (''lightning'', JStr ''dramatic'')])]"

definition has_job_id :: "json \<Rightarrow> py_error + bool" where
  "has_job_id j =
     and_then (py_in ''id'' j) (\<lambda>a. if a then Inr True else py_in ''job_id'' j)"

definition get_job_id :: "json \<Rightarrow> py_error + json" where
  "get_job_id j =
     and_then (py_get j ''id'' JNull) (\<lambda>a.
       if json_truthy a then Inr a else py_get j ''job_id'' JNull)"

text \<open>
  What the text-to-image branch does with the parsed response. The first part
  looks inside \<^verbatim>\<open>result["data"]\<close>; \<open>Inr None\<close> means that it fell through to the test
  of \<^verbatim>\<open>id\<close> and \<^verbatim>\<open>job_id\<close> in \<^verbatim>\<open>result\<close> itself.
\<close>

definition freepik_from_data ::
  "world \<Rightarrow> json \<Rightarrow> string \<Rightarrow> event list \<Rightarrow> (py_error + string option) \<times> event list" where
  "freepik_from_data w image_data output_path tr =
     (case image_data of
        JArr (image_info # others) \<Rightarrow>
          save_by_keys w ''base64'' ''url'' image_info output_path tr
      | _ \<Rightarrow>
          (case has_job_id image_data of
             Inl e \<Rightarrow> (Inl e, tr)
           | Inr False \<Rightarrow> (Inr None, tr)
           | Inr True \<Rightarrow>
               (case get_job_id image_data of
                  Inl e \<Rightarrow> (Inl e, tr)
                | Inr job_id \<Rightarrow> returned (poll_freepik_job w job_id output_path tr))))"

definition freepik_handle_result ::
  "world \<Rightarrow> json \<Rightarrow> string \<Rightarrow> event list \<Rightarrow> (py_error + string) \<times> event list" where
  "freepik_handle_result w result output_path tr =
     (case (case py_in ''data'' result of
              Inl e \<Rightarrow> (Inl e, tr)
            | Inr False \<Rightarrow> (Inr None, tr)
            | Inr True \<Rightarrow>
                (case py_getitem result ''data'' of
                   Inl e \<Rightarrow> (Inl e, tr)
                 | Inr image_data \<Rightarrow> freepik_from_data w image_data output_path tr)) of
        (Inl e, tr1) \<Rightarrow> (Inl e, tr1)
      | (Inr (Some p), tr1) \<Rightarrow> (Inr p, tr1)
      | (Inr None, tr1) \<Rightarrow>
          (case has_job_id result of
             Inl e \<Rightarrow> (Inl e, tr1)
           | Inr True \<Rightarrow>
               (case get_job_id result of
                  Inl e \<Rightarrow> (Inl e, tr1)
                | Inr job_id \<Rightarrow> poll_freepik_job w job_id output_path tr1)
           | Inr False \<Rightarrow>
               (Inl (Exception (''Unexpected API response format: '' @ py_str w result)), tr1)))"

definition freepik_text_to_image ::
  "world \<Rightarrow> string \<Rightarrow> string \<Rightarrow> event list \<Rightarrow> (py_error + string) \<times> event list" where
  "freepik_text_to_image w prompt output_path tr =
     (let url = ''https://api.freepik.com/v1/ai/text-to-image'';
          payload = freepik_payload (freepik_text_prompt prompt);
          tr1 = tr @ [HttpPost url payload]
      in case and_then (http_post w tr url payload) (\<lambda>response.
              and_then (raise_for_status response) (\<lambda>u. json_body response)) of
           Inl e \<Rightarrow> (Inl e, tr1)
         | Inr result \<Rightarrow> freepik_handle_result w result output_path tr1)"

definition freepik_cannot_process :: "py_error \<Rightarrow> py_error" where
  "freepik_cannot_process e =
     Exception (''Freepik cannot process reference images: '' @ error_str e @
       ''. Please use DALL-E or Replicate instead.'')"

definition generate_freepik ::
  "world \<Rightarrow> generator \<Rightarrow> string \<Rightarrow> string \<Rightarrow> py_ref \<Rightarrow> event list
     \<Rightarrow> (py_error + string) \<times> event list" where
  "generate_freepik w self prompt output_path reference_image_path tr =
     (let reference_image_path = validate_reference (path_exists w) reference_image_path in
      if truthy reference_image_path then
        (case freepik_with_reference w prompt output_path reference_image_path tr of
           (Inr p, tr1) \<Rightarrow> (Inr p, tr1)
         | (Inl e, tr1) \<Rightarrow> (Inl (freepik_cannot_process e), tr1))
      else freepik_text_to_image w prompt output_path tr)"

subsection \<open>generate\_replicate\<close>

definition replicate_prompt :: "string \<Rightarrow> string" where
  "replicate_prompt prompt =
     ''YouTube thumbnail style, 16:9 landscape format: '' @ prompt @
     ''. Professional, high quality, eye-catching design. Bold text, vibrant colors, modern aesthetic''"

definition replicate_url :: string where
  "replicate_url = ''https://api.replicate.com/v1/predictions''"

text \<open>The two model configurations; \<^verbatim>\<open>image_input\<close> is \<open>None\<close> without a reference.\<close>

definition replicate_models :: "string \<Rightarrow> string option \<Rightarrow> (string \<times> json) list" where
  "replicate_models enhanced_prompt image_input =
     [(''FLUX Dev'' @ (if image_input \<noteq> None then '' (img2img)'' else []),
       JObj [(''version'', JStr ''black-forest-labs/flux-dev''),
             (''input'',
              JObj ([(''prompt'', JStr enhanced_prompt),
                     (''aspect_ratio'', JStr ''16:9''),
                     (''num_outputs'', JNum 1),
                     (''output_format'', JStr ''png''),
                     (''output_quality'', JNum 90)] @
                    (case image_input of
                       Some img \<Rightarrow> [(''image'', JStr img), (''prompt_strength'', JNum 0.75)]
                     | None \<Rightarrow> [])))]),
      (''SDXL'' @ (if image_input \<noteq> None then '' (img2img)'' else []),
       JObj [(''version'',
              JStr ''stability-ai/sdxl:39ed52f2a78e934b3ba6e2a89f5b1c712de7dfea535525255b1aa35c5565e08b''),
             (''input'',
              JObj ([(''prompt'', JStr enhanced_prompt),
                     (''width'', JNum 1280),
                     (''height'', JNum 720),
                     (''num_outputs'', JNum 1),
                     (''num_inference_steps'', JNum 30),
                     (''guidance_scale'', JNum 7.5),
                     (''scheduler'', JStr ''K_EULER'')] @
                    (case image_input of
                       Some img \<Rightarrow> [(''image'', JStr img), (''prompt_strength'', JNum 0.8)]
                     | None \<Rightarrow> [])))])]"

text \<open>
  One pass of the polling loop: \<open>Some r\<close> when the pass returned or raised, \<open>None\<close>
  when it slept two seconds and the loop goes on.
\<close>

definition replicate_succeeded ::
  "world \<Rightarrow> json \<Rightarrow> string \<Rightarrow> event list \<Rightarrow> (py_error + string) \<times> event list" where
  "replicate_succeeded w result output_path tr =
     (case py_get result ''output'' JNull of
        Inl e \<Rightarrow> (Inl e, tr)
      | Inr output_data \<Rightarrow>
          (case output_data of
             JArr xs \<Rightarrow>
               (case py_first output_data of
                  Inl e \<Rightarrow> (Inl e, tr)
                | Inr output_url \<Rightarrow> download w output_url output_path tr)
           | JStr s \<Rightarrow> download w output_data output_path tr
           | _ \<Rightarrow>
               (Inl (Exception (''Unexpected output format: '' @
                       py_str w output_data)), tr)))"

definition replicate_poll_attempt ::
  "world \<Rightarrow> string \<Rightarrow> string \<Rightarrow> event list \<Rightarrow> (py_error + string) option \<times> event list" where
  "replicate_poll_attempt w get_url output_path tr =
     (let tr1 = tr @ [HttpGet get_url] in
      case and_then (http_get w tr get_url) (\<lambda>response.
           and_then (raise_for_status response) (\<lambda>u.
           and_then (json_body response) (\<lambda>result.
           and_then (py_getitem result ''status'') (\<lambda>status. Inr (result, status))))) of
        Inl e \<Rightarrow> (Some (Inl e), tr1)
      | Inr (result, status) \<Rightarrow>
          if status = JStr ''succeeded'' then
            (case replicate_succeeded w result output_path tr1 of (r, tr2) \<Rightarrow> (Some r, tr2))
          else if status = JStr ''failed'' then
            (case py_get result ''error'' (JStr ''Unknown error'') of
               Inl e \<Rightarrow> (Some (Inl e), tr1)
             | Inr error_msg \<Rightarrow>
                 (Some (Inl (generation_failed (py_str w error_msg))), tr1))
          else (None, tr1 @ [Sleep 2]))"

fun replicate_poll_loop ::
  "world \<Rightarrow> string \<Rightarrow> string \<Rightarrow> nat list \<Rightarrow> event list \<Rightarrow> (py_error + string) \<times> event list" where
  "replicate_poll_loop w get_url output_path [] tr = (Inl timed_out, tr)"
| "replicate_poll_loop w get_url output_path (attempt # rest) tr =
     (case replicate_poll_attempt w get_url output_path tr of
        (Some r, tr1) \<Rightarrow> (r, tr1)
      | (None, tr1) \<Rightarrow> replicate_poll_loop w get_url output_path rest tr1)"

text \<open>The \<^verbatim>\<open>try\<close> block for one model: create the prediction, then poll it.\<close>

definition replicate_try_model ::
  "world \<Rightarrow> json \<Rightarrow> string \<Rightarrow> event list \<Rightarrow> (py_error + string) \<times> event list" where
  "replicate_try_model w payload output_path tr =
     (let tr1 = tr @ [HttpPost replicate_url payload] in
      case and_then (http_post w tr replicate_url payload) (\<lambda>response.
           and_then (raise_for_status response) (\<lambda>u.
           and_then (json_body response) (\<lambda>result. py_getitem result ''id''))) of
        Inl e \<Rightarrow> (Inl e, tr1)
      | Inr prediction_id \<Rightarrow>
          replicate_poll_loop w
            (replicate_url @ ''/'' @ py_str w prediction_id)
            output_path [0..<max_attempts] tr1)"

text \<open>
  The loop over the models: an exception is re-raised when the model configuration
  equals the last one, and otherwise the next model is tried.
\<close>

fun replicate_model_loop ::
  "world \<Rightarrow> (string \<times> json) list \<Rightarrow> string \<Rightarrow> (string \<times> json) list \<Rightarrow> py_error option
     \<Rightarrow> event list \<Rightarrow> (py_error + string) \<times> event list" where
  "replicate_model_loop w models output_path [] last_error tr =
     (case last_error of
        Some e \<Rightarrow> (Inl e, tr)
      | None \<Rightarrow> (Inl (TypeError ''exceptions must derive from BaseException''), tr))"
| "replicate_model_loop w models output_path (model_config # rest) last_error tr =
     (case replicate_try_model w (snd model_config) output_path tr of
        (Inr p, tr1) \<Rightarrow> (Inr p, tr1)
      | (Inl e, tr1) \<Rightarrow>
          if model_config = last models then (Inl e, tr1)
          else replicate_model_loop w models output_path rest (Some e) tr1)"

definition generate_replicate ::
  "world \<Rightarrow> generator \<Rightarrow> string \<Rightarrow> string \<Rightarrow> py_ref \<Rightarrow> event list
     \<Rightarrow> (py_error + string) \<times> event list" where
  "generate_replicate w self prompt output_path reference_image_path tr =
     (let reference_image_path = validate_reference (path_exists w) reference_image_path;
          enhanced_prompt = replicate_prompt prompt
      in case (if truthy reference_image_path then
                 (case read_file w (ref_path reference_image_path) of
                    None \<Rightarrow> Inl (OSError ''cannot read the reference image'')
                  | Some bytes \<Rightarrow> Inr (Some (''data:image/jpeg;base64,'' @ b64encode w bytes)))
               else Inr None) of
           Inl e \<Rightarrow> (Inl e, tr)
         | Inr image_input \<Rightarrow>
             (let models = replicate_models enhanced_prompt image_input in
              replicate_model_loop w models output_path models None tr))"

subsection \<open>generate\_dalle\<close>

definition dalle_text_prompt :: "string \<Rightarrow> string" where
  "dalle_text_prompt prompt =
     ''YouTube thumbnail style, 16:9 aspect ratio: '' @ prompt @
     ''. Professional, high quality, eye-catching, modern design''"

definition box_line :: string where
  "box_line = replicate 46 box_line_char"

definition dalle_context_prompt :: "string \<Rightarrow> string \<Rightarrow> string" where
  "dalle_context_prompt original_description prompt =
     ''Create a YouTube thumbnail (16:9, 1792x1024) by RECREATING this exact layout with modifications:\<newline>\<newline>'' @
     box_line @ ''\<newline>ORIGINAL DESIGN TO REPLICATE:\<newline>'' @ original_description @ ''\<newline>'' @
     box_line @ ''\<newline>\<newline>SPECIFIC CHANGES TO MAKE:\<newline>'' @ prompt @ ''\<newline>\<newline>'' @
     box_line @ ''\<newline>CRITICAL INSTRUCTIONS:\<newline>- KEEP the exact same layout structure and composition\<newline>- KEEP the same spatial arrangement (left/right/top/bottom positions)\<newline>- KEEP the same text placement and font styles\<newline>- ONLY change the elements specifically mentioned above\<newline>- Maintain professional YouTube thumbnail quality\<newline>- DO NOT create a completely new design\<newline>- RECREATE the original layout with ONLY the specified modifications''"

text \<open>
  The prompt and the trace after the optional vision step: with a reference, GPT-4o
  is asked to describe it, and any exception of that step falls back to the text
  template.
\<close>

definition dalle_enhanced_prompt ::
  "world \<Rightarrow> string \<Rightarrow> py_ref \<Rightarrow> event list \<Rightarrow> string \<times> event list" where
  "dalle_enhanced_prompt w prompt reference_image_path tr =
     (if truthy reference_image_path then
        (case read_file w (ref_path reference_image_path) of
           None \<Rightarrow> (dalle_text_prompt prompt, tr)
         | Some bytes \<Rightarrow>
             (let image_data = b64encode w bytes;
                  tr1 = tr @ [ChatCompletion image_data]
              in case chat_completion w tr image_data of
                   Inl e \<Rightarrow> (dalle_text_prompt prompt, tr1)
                 | Inr original_description \<Rightarrow>
                     (dalle_context_prompt original_description prompt, tr1)))
      else (dalle_text_prompt prompt, tr))"

definition generate_dalle ::
  "world \<Rightarrow> generator \<Rightarrow> string \<Rightarrow> string \<Rightarrow> py_ref \<Rightarrow> event list
     \<Rightarrow> (py_error + string) \<times> event list" where
  "generate_dalle w self prompt output_path reference_image_path tr =
     (let reference_image_path = validate_reference (path_exists w) reference_image_path in
      case dalle_enhanced_prompt w prompt reference_image_path tr of
        (enhanced_prompt, tr1) \<Rightarrow>
          (let sent = take 4000 enhanced_prompt;
               tr2 = tr1 @ [ImagesGenerate sent]
           in case images_generate w tr1 sent of
                Inl e \<Rightarrow> (Inl e, tr2)
              | Inr image_url \<Rightarrow> download w (JStr image_url) output_path tr2))"

subsection \<open>generate\_fal\<close>

definition fal_prompt :: "string \<Rightarrow> string" where
  "fal_prompt prompt =
     ''YouTube thumbnail style, 16:9 landscape format: '' @ prompt @
     ''. Professional, high quality, eye-catching design. Bold elements, vibrant colors, modern aesthetic''"

definition fal_arguments :: "string \<Rightarrow> string option \<Rightarrow> json" where
  "fal_arguments enhanced_prompt image_url =
     JObj ([(''prompt'', JStr enhanced_prompt),
            (''image_size'', JStr ''landscape_16_9''),
            (''num_inference_steps'', JNum 40),
            (''guidance_scale'', JNum 3.5),
            (''num_images'', JNum 1),
            (''enable_safety_checker'', JBool False),
            (''output_format'', JStr ''png'')] @
           (case image_url of
              Some u \<Rightarrow> [(''image_url'', JStr u), (''strength'', JNum 0.75)]
            | None \<Rightarrow> []))"

text \<open>
  The test \<^verbatim>\<open>result and "images" in result and len(result["images"]) > 0\<close> followed by
  \<^verbatim>\<open>result["images"][0]["url"]\<close>: \<open>Inr None\<close> when the test is false.
\<close>

definition fal_image_url :: "json \<Rightarrow> py_error + json option" where
  "fal_image_url result =
     (if \<not> json_truthy result then Inr None
      else
        and_then (py_in ''images'' result) (\<lambda>has_images.
          if \<not> has_images then Inr None
          else
            and_then (py_getitem result ''images'') (\<lambda>images.
            and_then (py_len images) (\<lambda>n.
              if \<not> 0 < n then Inr None
              else
                and_then (py_first images) (\<lambda>first_image.
                and_then (py_getitem first_image ''url'') (\<lambda>u. Inr (Some u)))))))"

definition generate_fal ::
  "world \<Rightarrow> generator \<Rightarrow> string \<Rightarrow> string \<Rightarrow> py_ref \<Rightarrow> event list
     \<Rightarrow> (py_error + string) \<times> event list" where
  "generate_fal w self prompt output_path reference_image_path tr =
     (let reference_image_path = validate_reference (path_exists w) reference_image_path;
          enhanced_prompt = fal_prompt prompt
      in if \<not> fal_installed w
         then (Inl (Exception ''fal-client not installed. Run: pip install fal-client''), tr)
         else
           (case (if truthy reference_image_path then
                    (case read_file w (ref_path reference_image_path) of
                       None \<Rightarrow> Inl (OSError ''cannot read the reference image'')
                     | Some bytes \<Rightarrow> Inr (Some (''data:image/jpeg;base64,'' @ b64encode w bytes)))
                  else Inr None) of
              Inl e \<Rightarrow> (Inl e, tr)
            | Inr image_url \<Rightarrow>
                (let arguments = fal_arguments enhanced_prompt image_url;
                     tr1 = tr @ [FalSubscribe arguments]
                 in case fal_subscribe w tr arguments of
                      Inl e \<Rightarrow> (Inl e, tr1)
                    | Inr result \<Rightarrow>
                        (case fal_image_url result of
                           Inl e \<Rightarrow> (Inl e, tr1)
                         | Inr None \<Rightarrow>
                             (Inl (Exception (''Unexpected result format: '' @
                                     py_str w result)), tr1)
                         | Inr (Some u) \<Rightarrow> download w u output_path tr1))))"

subsection \<open>generate\<close>

definition generate ::
  "world \<Rightarrow> generator \<Rightarrow> string \<Rightarrow> string \<Rightarrow> py_ref \<Rightarrow> event list
     \<Rightarrow> (py_error + string) \<times> event list" where
  "generate w self prompt output_path reference_image_path tr =
     (if service self = ''freepik''
      then generate_freepik w self prompt output_path reference_image_path tr
      else if service self = ''dalle''
      then generate_dalle w self prompt output_path reference_image_path tr
      else if service self = ''gemini''
      then generate_gemini w self prompt output_path reference_image_path tr
      else if service self = ''replicate''
      then generate_replicate w self prompt output_path reference_image_path tr
      else if service self = ''fal''
      then generate_fal w self prompt output_path reference_image_path tr
      else (Inl (ValueError (''Unsupported service: '' @ service self)), tr))"

subsection \<open>Predicates and example worlds for the properties of the orchestrator\<close>

text \<open>
  A reference path that is not a non-empty string, or that does not exist on disk.
\<close>

definition invalid_reference :: "world \<Rightarrow> py_ref \<Rightarrow> bool" where
  "invalid_reference w reference_image_path =
     (case reference_image_path of
        RStr s \<Rightarrow> s = [] \<or> \<not> path_exists w s
      | _ \<Rightarrow> True)"

text \<open>
  A world in which every provider is unreachable: each SDK call, HTTP request and
  client call raises. The file \<^verbatim>\<open>ref.png\<close> exists and can be read and opened; the
  base64 codec is a stub.
\<close>

definition offline_world :: world where
  "offline_world =
     \<lparr>path_exists = (\<lambda>p. p = ''ref.png''),
      read_file = (\<lambda>p. if p = ''ref.png'' then Some ''PNG'' else None),
      pil_open = (\<lambda>p. p = ''ref.png''),
      b64encode = (\<lambda>s. s),
      b64decode = (\<lambda>s. Inr s),
      json_to_str = (\<lambda>j. ''...''),
      genai_generate = (\<lambda>tr m t b. GenaiRaise (Exception ''unavailable'')),
      http_post = (\<lambda>tr u p. Inl (RequestException ''connection refused'')),
      http_get = (\<lambda>tr u. Inl (RequestException ''connection refused'')),
      chat_completion = (\<lambda>tr d. Inl (Exception ''unavailable'')),
      images_generate = (\<lambda>tr p. Inl (Exception ''unavailable'')),
      fal_installed = True,
      fal_subscribe = (\<lambda>tr a. Inl (Exception ''unavailable''))\<rparr>"

definition ok_response :: "json \<Rightarrow> string \<Rightarrow> http_response" where
  "ok_response j bytes =
     \<lparr>status_code = 200, response_text = [], json_body = Inr j, content = bytes\<rparr>"

text \<open>A world in which DALL-E answers with an image URL and the download succeeds.\<close>

definition online_world :: world where
  "online_world =
     offline_world
       \<lparr>images_generate := (\<lambda>tr p. Inr ''https://example.org/1.png''),
        http_get := (\<lambda>tr u. Inr (ok_response JNull ''IMG''))\<rparr>"

definition gen :: "string \<Rightarrow> generator" where
  "gen name = \<lparr>service = name, api_key = ''key''\<rparr>"

fun is_sleep :: "event \<Rightarrow> bool" where
  "is_sleep (Sleep n) = True"
| "is_sleep e = False"

fun is_get :: "event \<Rightarrow> bool" where
  "is_get (HttpGet u) = True"
| "is_get e = False"

text \<open>Events that carry no request to generate an image: a GET, a sleep, a file written.\<close>

fun is_quiet :: "event \<Rightarrow> bool" where
  "is_quiet (HttpGet u) = True"
| "is_quiet (Sleep n) = True"
| "is_quiet (WriteFile p d) = True"
| "is_quiet e = False"

text \<open>
  Only such events, of which at most \<open>s\<close> are sleeps, each of two seconds, and at most
  \<open>g\<close> are GET requests.
\<close>

definition bounded_events :: "nat \<Rightarrow> nat \<Rightarrow> event list \<Rightarrow> bool" where
  "bounded_events s g evs \<longleftrightarrow>
     length (filter is_sleep evs) \<le> s \<and>
     length (filter is_get evs) \<le> g \<and>
     list_all (\<lambda>e. is_sleep e \<longrightarrow> e = Sleep 2) evs \<and>
     list_all is_quiet evs"







text \<open>
  The events of one polling attempt: the status request, then at most one more GET
  (the download of the image) and at most one sleep of two seconds.
\<close>

definition attempt_events :: "string \<Rightarrow> event list \<Rightarrow> bool" where
  "attempt_events url seg =
     (case seg of
        HttpGet u # rest \<Rightarrow> u = url \<and> bounded_events 1 1 rest
      | _ \<Rightarrow> False)"



text \<open>The trace \<open>tr'\<close> extends \<open>tr\<close> by events within the given bounds.\<close>

definition adds :: "nat \<Rightarrow> nat \<Rightarrow> event list \<Rightarrow> event list \<Rightarrow> bool" where
  "adds s g tr tr' \<longleftrightarrow> (\<exists>evs. tr' = tr @ evs \<and> bounded_events s g evs)"







text \<open>
  The prompt texts that an event hands to an image provider: the text of an SDK
  request, the prompt of the Images API and of the FAL client, and in a JSON
  payload the string under \<^verbatim>\<open>prompt\<close>, under \<^verbatim>\<open>input.prompt\<close> and under the \<^verbatim>\<open>text\<close> of each
  content part. (The vision request of \<^verbatim>\<open>generate_dalle\<close> sends the reference image
  with a fixed instruction to describe it, and no prompt.)
\<close>

definition obj_field :: "json \<Rightarrow> string \<Rightarrow> json list" where
  "obj_field j k =
     (case j of
        JObj kvs \<Rightarrow> (case map_of kvs k of Some v \<Rightarrow> [v] | None \<Rightarrow> [])
      | _ \<Rightarrow> [])"

definition arr_items :: "json \<Rightarrow> json list" where
  "arr_items j = (case j of JArr xs \<Rightarrow> xs | _ \<Rightarrow> [])"

definition str_values :: "json list \<Rightarrow> string list" where
  "str_values js = List.map_filter (\<lambda>j. case j of JStr s \<Rightarrow> Some s | _ \<Rightarrow> None) js"

definition payload_prompts :: "json \<Rightarrow> string list" where
  "payload_prompts payload =
     str_values
       (obj_field payload ''prompt'' @
        concat (map (\<lambda>i. obj_field i ''prompt'') (obj_field payload ''input'')) @
        concat (map (\<lambda>part. obj_field part ''text'')
          (concat (map (\<lambda>c. concat (map arr_items (obj_field c ''parts'')))
            (concat (map arr_items (obj_field payload ''contents'')))))))"

fun event_prompts :: "event \<Rightarrow> string list" where
  "event_prompts (GenaiGenerate model_name t with_image) = [t]"
| "event_prompts (HttpPost url payload) = payload_prompts payload"
| "event_prompts (ImagesGenerate p) = [p]"
| "event_prompts (FalSubscribe arguments) = payload_prompts arguments"
| "event_prompts e = []"

text \<open>The trace \<open>tr'\<close> extends \<open>tr\<close> by events that all satisfy \<open>P\<close>.\<close>

definition extends :: "(event \<Rightarrow> bool) \<Rightarrow> event list \<Rightarrow> event list \<Rightarrow> bool" where
  "extends P tr tr' \<longleftrightarrow> (\<exists>evs. tr' = tr @ evs \<and> list_all P evs)"

definition prompts_ok :: "(string \<Rightarrow> bool) \<Rightarrow> event \<Rightarrow> bool" where
  "prompts_ok good ev = list_all good (event_prompts ev)"

text \<open>
  The first request of a call without a reference image, for each supported
  provider: the provider's request with the template around the prompt.
\<close>

definition first_request :: "generator \<Rightarrow> string \<Rightarrow> event option" where
  "first_request self prompt =
     (if service self = ''freepik''
      then Some (HttpPost ''https://api.freepik.com/v1/ai/text-to-image''
                   (freepik_payload (freepik_text_prompt prompt)))
      else if service self = ''dalle''
      then Some (ImagesGenerate (take 4000 (dalle_text_prompt prompt)))
      else if service self = ''gemini''
      then Some (GenaiGenerate (hd gemini_models_to_try) (gemini_enhanced_prompt prompt) False)
      else if service self = ''replicate''
      then Some (HttpPost replicate_url
                   (snd (hd (replicate_models (replicate_prompt prompt) None))))
      else if service self = ''fal''
      then Some (FalSubscribe (fal_arguments (fal_prompt prompt) None))
      else None)"

text \<open>
  What holds of a prompt text sent for the input \<open>prompt\<close>: it names the aspect ratio
  16:9; unless it is a DALL-E prompt that reached the limit of 4000 characters, it
  contains the input prompt and a quality instruction; and for Gemini it contains
  the instruction to avoid podcast microphones and headphones.
\<close>

definition augmented :: "generator \<Rightarrow> string \<Rightarrow> string \<Rightarrow> bool" where
  "augmented self prompt t \<longleftrightarrow>
     contains ''16:9'' t \<and>
     (service self \<noteq> ''dalle'' \<or> length t < 4000 \<longrightarrow>
        contains prompt t \<and> contains ''quality'' t) \<and>
     (service self = ''gemini'' \<longrightarrow> contains ''Avoid: podcast microphones, headphones'' t)"

text \<open>
  The invariant of the indexing loop: one embedding per entry, and the category set
  holds exactly the categories of the entries collected so far.
\<close>

definition loop_inv :: "thumbnail list \<times> real list list \<times> string list \<Rightarrow> bool" where
  "loop_inv acc \<longleftrightarrow> (case acc of (thumbs, embs, cats) \<Rightarrow>
      length embs = length thumbs \<and> distinct cats \<and>
      set cats = {c. \<exists>t \<in> set thumbs. category t = Some c})"

section \<open>Properties of the similarity index\<close>

subsection \<open>Cosine similarity lies between -1 and 1\<close>

lemma dot_Nil [simp]: "dot [] b = 0" "dot a [] = 0"
  by (simp_all add: dot_def)

lemma dot_Cons [simp]: "dot (x # a) (y # b) = x * y + dot a b"
  by (simp add: dot_def)








subsection \<open>Top-k selection and the result list\<close>






lemma result_score_make [simp]: "result_score (make_result t s n) = Some s"
  by (simp add: result_score_def make_result_def dict_get_def)

lemma result_rank_make [simp]: "result_rank (make_result t s n) = Some (int n + 1)"
  by (simp add: result_rank_def make_result_def dict_get_def)





lemma ex_files: "find_image_files ex_env ex_dir = [ex_a, ex_b, ex_c]"
  by (simp add: find_image_files_def ex_env_def ex_dir_def ex_a_def ex_b_def ex_c_def
      path_suffix_def path_name_def lower_def lower_char_def image_extensions_def)

lemma ex_build: "index_thumbnails ex_env (finder_init Map.empty ex_dir default_index_file, Map.empty)
   = (ex_finder, [default_index_file \<mapsto> ex_index])"
proof -
  have d: "thumbnails_dir (finder_init Map.empty ex_dir default_index_file) = ex_dir"
    by (simp add: finder_init_def)
  show ?thesis
    by (simp add: index_thumbnails_def d ex_files Let_def)
      (simp add: finder_init_def index_one_def ex_env_def ex_dir_def ex_a_def ex_b_def ex_c_def
        path_parent_def path_name_def ex_finder_def ex_index_def load_or_create_index_def)
qed





subsection \<open>Querying an empty index\<close>

lemma index_loop_all_fail:
  "\<forall>p \<in> set ps. encode_image env p = None \<Longrightarrow> index_loop env dir ps acc = acc"
  by (induction ps arbitrary: acc) (auto simp: index_one_def split: prod.splits)

lemma index_thumbnails_no_files:
  "find_image_files env (thumbnails_dir self) = [] \<Longrightarrow>
   index_thumbnails env (self, dsk) = (self, dsk)"
  by (simp add: index_thumbnails_def)

text \<open>
  Claim C5, as stated, fails: when the scan finds no image file, \<^verbatim>\<open>index_thumbnails\<close>
  returns before it assigns \<^verbatim>\<open>index_data\<close>, so a finder that loaded the three entries
  of an earlier build still answers a query after a build on the emptied directory.
\<close>

theorem stale_index_counterexample:
  "find_image_files ex_env_no_files (thumbnails_dir ex_finder) = [] \<and>
   find_similar ex_env_no_files
     (fst (index_thumbnails ex_env_no_files (ex_finder, [default_index_file \<mapsto> ex_index])))
     ''AI'' None 1
   = Inr [[(''path'', VStr ''thumbnails/Tech/a.jpg''), (''filename'', VStr ''a.jpg''),
           (''similarity_score'', VFloat 1), (''rank'', VInt 1)]]"
proof -
  have f: "find_image_files ex_env_no_files (thumbnails_dir ex_finder) = []"
    by (simp add: find_image_files_def ex_env_no_files_def)
  have b: "index_thumbnails ex_env_no_files (ex_finder, [default_index_file \<mapsto> ex_index])
         = (ex_finder, [default_index_file \<mapsto> ex_index])"
    by (simp add: index_thumbnails_def f)
  have q: "find_similar ex_env_no_files ex_finder ''AI'' None 1 =
     Inr [[(''path'', VStr ''thumbnails/Tech/a.jpg''), (''filename'', VStr ''a.jpg''),
           (''similarity_score'', VFloat 1), (''rank'', VInt 1)]]"
    by (simp add: find_similar_def ex_finder_def ex_index_def ex_env_no_files_def ex_env_def cos_sim_def Let_def
      normalize_def norm2_def dot_def normalize_eps_def topk_def make_result_def)
  show ?thesis by (simp add: f b q)
qed

text \<open>
  Claim C5, amended. A query on an index with zero entries fails with the ValueError
  of the empty index. After a build in which no image could be loaded or embedded,
  the query fails with that error when the scan found at least one image file or
  the index held before the build had no entries.
\<close>

theorem query_empty_index:
  "(thumbnails (index_data self) = [] \<longrightarrow>
      find_similar env self topic pov top_k = Inl empty_index_error) \<and>
   ((\<forall>p \<in> set (find_image_files env (thumbnails_dir self)). encode_image env p = None) \<and>
    (find_image_files env (thumbnails_dir self) \<noteq> [] \<or> thumbnails (index_data self) = []) \<longrightarrow>
      find_similar env (fst (index_thumbnails env (self, dsk))) topic pov top_k
        = Inl empty_index_error)"
proof (intro conjI impI)
  show "find_similar env self topic pov top_k = Inl empty_index_error"
    if "thumbnails (index_data self) = []"
    using that by (simp add: find_similar_def)
next
  assume a: "(\<forall>p \<in> set (find_image_files env (thumbnails_dir self)). encode_image env p = None) \<and>
    (find_image_files env (thumbnails_dir self) \<noteq> [] \<or> thumbnails (index_data self) = [])"
  have "thumbnails (index_data (fst (index_thumbnails env (self, dsk)))) = []"
  proof (cases "find_image_files env (thumbnails_dir self) = []")
    case True
    with a show ?thesis by (simp add: index_thumbnails_no_files)
  next
    case False
    moreover from a have "index_loop env (thumbnails_dir self)
        (find_image_files env (thumbnails_dir self)) ([], [], []) = ([], [], [])"
      by (simp add: index_loop_all_fail)
    ultimately show ?thesis by (simp add: index_thumbnails_def Let_def)
  qed
  then show "find_similar env (fst (index_thumbnails env (self, dsk))) topic pov top_k
        = Inl empty_index_error"
    by (simp add: find_similar_def)
qed

theorem query_empty_index_witness:
  "thumbnails (index_data (finder_init Map.empty ex_dir default_index_file)) = [] \<and>
   find_similar ex_env (finder_init Map.empty ex_dir default_index_file) ''AI'' None 3
     = Inl empty_index_error \<and>
   map (encode_image ex_env_unreadable)
     (find_image_files ex_env_unreadable (thumbnails_dir ex_finder)) = [None, None, None] \<and>
   find_image_files ex_env_unreadable (thumbnails_dir ex_finder) \<noteq> [] \<and>
   find_similar ex_env_unreadable
     (fst (index_thumbnails ex_env_unreadable (ex_finder, [default_index_file \<mapsto> ex_index])))
     ''AI'' None 3 = Inl empty_index_error"
proof -
  have h1: "thumbnails (index_data (finder_init Map.empty ex_dir default_index_file)) = []"
    by (simp add: finder_init_def load_or_create_index_def)
  have h2: "\<forall>p \<in> set (find_image_files ex_env_unreadable (thumbnails_dir ex_finder)).
      encode_image ex_env_unreadable p = None"
    by (simp add: ex_env_unreadable_def)
  have "find_image_files ex_env_unreadable ex_dir = find_image_files ex_env ex_dir"
    by (simp add: find_image_files_def ex_env_unreadable_def)
  then have fs: "find_image_files ex_env_unreadable (thumbnails_dir ex_finder) = [ex_a, ex_b, ex_c]"
    by (simp add: ex_files ex_finder_def)
  then have h3: "find_image_files ex_env_unreadable (thumbnails_dir ex_finder) \<noteq> []"
    by simp
  have h4: "map (encode_image ex_env_unreadable)
     (find_image_files ex_env_unreadable (thumbnails_dir ex_finder)) = [None, None, None]"
    unfolding fs by (simp add: ex_env_unreadable_def)
  from query_empty_index [of "finder_init Map.empty ex_dir default_index_file" ex_env "''AI''" None 3]
    query_empty_index [of ex_finder ex_env_unreadable "''AI''" None 3 "[default_index_file \<mapsto> ex_index]"]
    h1 h2 h3 h4
  show ?thesis by blast
qed

subsection \<open>What a build persists\<close>

lemma index_one_inv: "loop_inv acc \<Longrightarrow> loop_inv (index_one env dir p acc)"
  by (cases acc) (auto simp: loop_inv_def index_one_def Let_def split: option.splits)

lemma index_loop_inv: "loop_inv acc \<Longrightarrow> loop_inv (index_loop env dir ps acc)"
  by (induction ps arbitrary: acc) (simp_all add: index_one_inv)

lemma index_thumbnails_some_files:
  assumes "find_image_files env (thumbnails_dir self) \<noteq> []"
  shows "\<exists>idx cs. index_thumbnails env (self, dsk) = (self\<lparr>index_data := idx\<rparr>, dsk(index_file self \<mapsto> idx)) \<and>
           length (embeddings idx) = length (thumbnails idx) \<and>
           categories idx = Some cs \<and> sorted cs \<and> distinct cs \<and>
           set cs = {c. \<exists>t \<in> set (thumbnails idx). category t = Some c}"
proof -
  obtain thumbs embs cats where
    l: "index_loop env (thumbnails_dir self) (find_image_files env (thumbnails_dir self)) ([], [], [])
          = (thumbs, embs, cats)"
    by (metis prod_cases3)
  have "loop_inv ([], [], [])" by (simp add: loop_inv_def)
  then have "loop_inv (thumbs, embs, cats)"
    using index_loop_inv [of "([], [], [])" env "thumbnails_dir self" "find_image_files env (thumbnails_dir self)"] l
    by simp
  then have inv: "length embs = length thumbs" "distinct cats"
      "set cats = {c. \<exists>t \<in> set thumbs. category t = Some c}"
    by (simp_all add: loop_inv_def)
  let ?idx = "\<lparr>thumbnails = thumbs, embeddings = embs, categories = Some (sort cats)\<rparr>"
  have "index_thumbnails env (self, dsk) = (self\<lparr>index_data := ?idx\<rparr>, dsk(index_file self \<mapsto> ?idx))"
    using assms l by (simp add: index_thumbnails_def Let_def)
  moreover have "length (embeddings ?idx) = length (thumbnails ?idx)" using inv by simp
  moreover have "categories ?idx = Some (sort cats)" by simp
  moreover have "sorted (sort cats)" "distinct (sort cats)" using inv by simp_all
  moreover have "set (sort cats) = {c. \<exists>t \<in> set (thumbnails ?idx). category t = Some c}"
    using inv by simp
  ultimately show ?thesis by blast
qed

text \<open>
  Claim C10, as stated, fails: a build on a directory without image files returns
  early and writes nothing, so no snapshot exists afterwards under the index file
  name.
\<close>

theorem no_files_nothing_persisted_counterexample:
  "find_image_files ex_env_no_files ex_dir = [] \<and>
   snd (index_thumbnails ex_env_no_files
          (finder_init Map.empty ex_dir default_index_file, Map.empty)) default_index_file = None"
proof -
  have f: "find_image_files ex_env_no_files ex_dir = []"
    by (simp add: find_image_files_def ex_env_no_files_def)
  then show ?thesis by (simp add: index_thumbnails_def finder_init_def)
qed

text \<open>
  Claim C10, amended. A build whose scan finds at least one image file replaces the
  in-memory index and stores the same index (entries, embeddings, and the sorted,
  duplicate-free list of the entries' categories) under the finder's index file
  name, overwriting what was stored there and nothing else. A build whose scan
  finds no image file changes neither the finder nor the stored snapshot.
\<close>

theorem index_thumbnails_persists:
  "(find_image_files env (thumbnails_dir self) \<noteq> [] \<longrightarrow>
      (\<exists>idx cs.
         index_thumbnails env (self, dsk)
           = (self\<lparr>index_data := idx\<rparr>, dsk(index_file self \<mapsto> idx)) \<and>
         length (embeddings idx) = length (thumbnails idx) \<and>
         categories idx = Some cs \<and> sorted cs \<and> distinct cs \<and>
         set cs = {c. \<exists>t \<in> set (thumbnails idx). category t = Some c})) \<and>
   (find_image_files env (thumbnails_dir self) = [] \<longrightarrow>
      index_thumbnails env (self, dsk) = (self, dsk))"
  using index_thumbnails_some_files [of env self dsk] index_thumbnails_no_files [of env self dsk]
  by blast

theorem index_thumbnails_persists_witness:
  "find_image_files ex_env (thumbnails_dir (finder_init Map.empty ex_dir default_index_file)) \<noteq> [] \<and>
   index_thumbnails ex_env (finder_init Map.empty ex_dir default_index_file, Map.empty)
     = (ex_finder, [default_index_file \<mapsto> ex_index]) \<and>
   find_image_files ex_env_no_files (thumbnails_dir ex_finder) = [] \<and>
   index_thumbnails ex_env_no_files (ex_finder, [default_index_file \<mapsto> ex_index])
     = (ex_finder, [default_index_file \<mapsto> ex_index])"
proof -
  have h1: "find_image_files ex_env (thumbnails_dir (finder_init Map.empty ex_dir default_index_file)) \<noteq> []"
    by (simp add: finder_init_def ex_files)
  have h2: "find_image_files ex_env_no_files (thumbnails_dir ex_finder) = []"
    by (simp add: find_image_files_def ex_env_no_files_def)
  from index_thumbnails_persists [of ex_env_no_files ex_finder "[default_index_file \<mapsto> ex_index]"] h1 h2 ex_build
  show ?thesis by simp
qed

subsection \<open>The search string\<close>

text \<open>
  Claim C9, as stated, fails: the fixed template of the code starts with the word
  YouTube, so the search string for the topic AI is not the string "thumbnail about AI".
\<close>

theorem search_query_counterexample:
  "search_query ''AI'' None = ''YouTube thumbnail about AI'' \<and>
   search_query ''AI'' None \<noteq> ''thumbnail about AI''"
  by (simp add: search_query_def)

text \<open>
  Claim C9, amended. The search string is "YouTube thumbnail about " followed by the
  topic and, when a non-empty point of view is given, by " from ", the point of view
  and " perspective"; \<^verbatim>\<open>find_similar\<close> reads the text encoder at exactly this string (its
  result is unchanged when the encoder is replaced by the constant function that
  returns the embedding of this string).
\<close>

theorem search_query_template:
  "search_query topic pov =
     ''YouTube thumbnail about '' @ topic @
       (case pov of None \<Rightarrow> [] | Some p \<Rightarrow> if p = [] then [] else '' from '' @ p @ '' perspective'') \<and>
   find_similar env self topic pov top_k =
     find_similar (env\<lparr>encode_text := (\<lambda>text. encode_text env (search_query topic pov))\<rparr>)
       self topic pov top_k"
  by (simp add: search_query_def find_similar_def split: option.splits)

theorem search_query_template_witness:
  "search_query ''AI'' (Some ''a beginner'') = ''YouTube thumbnail about AI from a beginner perspective'' \<and>
   search_query ''AI'' (Some []) = ''YouTube thumbnail about AI'' \<and>
   search_query ''AI'' None = ''YouTube thumbnail about AI''"
  using search_query_template [of "''AI''" "Some ''a beginner''"]
    search_query_template [of "''AI''" "Some []"] search_query_template [of "''AI''" None]
  by simp

subsection \<open>The example scenario\<close>

lemma result_path_make [simp]: "result_path (make_result t s n) = Some (path t)"
  by (simp add: result_path_def make_result_def dict_get_def)








section \<open>Properties of the generation orchestrator\<close>

subsection \<open>An invalid reference path is no reference path\<close>

lemma strip_Nil [simp]: "strip [] = []"
  by (simp add: strip_def)

lemma validate_invalid:
  assumes "invalid_reference w r"
  shows "\<not> truthy (validate_reference (path_exists w) r)"
    and "\<not> gemini_has_reference (validate_reference (path_exists w) r)"
  using assms
  by (cases r; auto simp: invalid_reference_def validate_reference_def gemini_has_reference_def)+

lemma validate_None [simp]: "validate_reference ex RNone = RNone"
  by (simp add: validate_reference_def)

lemma has_reference_None [simp]: "\<not> gemini_has_reference RNone"
  by (simp add: gemini_has_reference_def)

lemma sdk_request_no_reference:
  "\<not> gemini_has_reference r \<Longrightarrow>
   gemini_sdk_request w m p r tr = genai_text_call w m p tr"
  by (simp add: gemini_sdk_request_def)

lemma sdk_loop_no_reference:
  "\<not> gemini_has_reference r \<Longrightarrow>
   gemini_sdk_loop w p out r ms tr = gemini_sdk_loop w p out RNone ms tr"
  by (induction ms arbitrary: tr)
     (simp_all add: sdk_request_no_reference split: prod.splits bool.splits)

lemma content_parts_no_reference:
  "\<not> gemini_has_reference r \<Longrightarrow>
   gemini_content_parts w p r = [JObj [(''text'', JStr p)]]"
  by (simp add: gemini_content_parts_def)

lemma rest_loop_no_reference:
  "\<not> gemini_has_reference r \<Longrightarrow>
   gemini_rest_loop w key p out r eps le tr = gemini_rest_loop w key p out RNone eps le tr"
  by (induction eps arbitrary: le tr)
     (simp_all add: gemini_rest_attempt_def content_parts_no_reference
        split: prod.splits sum.splits)

lemma candidates_no_reference:
  assumes "\<not> gemini_has_reference r"
  shows "gemini_candidates w key p out r tr = gemini_candidates w key p out RNone tr"
  unfolding gemini_candidates_def
  by (simp only: sdk_loop_no_reference [OF assms] rest_loop_no_reference [OF assms])

lemma generate_gemini_invalid:
  assumes "invalid_reference w r"
  shows "generate_gemini w self prompt out r tr = generate_gemini w self prompt out RNone tr"
proof -
  let ?rv = "validate_reference (path_exists w) r"
  from assms have nt: "\<not> truthy ?rv" and nh: "\<not> gemini_has_reference ?rv"
    by (rule validate_invalid)+
  have c: "gemini_candidates w (api_key self) (gemini_enhanced_prompt prompt) out ?rv tr
         = gemini_candidates w (api_key self) (gemini_enhanced_prompt prompt) out RNone tr"
    using nh by (rule candidates_no_reference)
  show ?thesis
    unfolding generate_gemini.simps [of w self prompt out r tr]
      generate_gemini.simps [of w self prompt out RNone tr] c
    using nt by (simp split: prod.splits sum.splits)
qed

lemma generate_freepik_invalid:
  assumes "invalid_reference w r"
  shows "generate_freepik w self prompt out r tr = generate_freepik w self prompt out RNone tr"
  using validate_invalid(1) [OF assms] by (simp add: generate_freepik_def)

lemma generate_replicate_invalid:
  assumes "invalid_reference w r"
  shows "generate_replicate w self prompt out r tr = generate_replicate w self prompt out RNone tr"
  using validate_invalid(1) [OF assms] by (simp add: generate_replicate_def)

lemma generate_dalle_invalid:
  assumes "invalid_reference w r"
  shows "generate_dalle w self prompt out r tr = generate_dalle w self prompt out RNone tr"
  using validate_invalid(1) [OF assms] by (simp add: generate_dalle_def dalle_enhanced_prompt_def)

lemma generate_fal_invalid:
  assumes "invalid_reference w r"
  shows "generate_fal w self prompt out r tr = generate_fal w self prompt out RNone tr"
  using validate_invalid(1) [OF assms] by (simp add: generate_fal_def)

text \<open>
  Claim C3. For every provider, prompt and output path, in every world and after any
  trace, \<^verbatim>\<open>generate\<close> with a reference path that is not a non-empty string or that does
  not exist on disk returns the same result and makes the same requests (hence
  sends the same augmented prompt through the same candidate chain) as \<^verbatim>\<open>generate\<close>
  with no reference path; the invalid path itself raises nothing.
\<close>

theorem invalid_reference_is_no_reference:
  assumes "invalid_reference w reference_image_path"
  shows "generate w self prompt output_path reference_image_path tr =
         generate w self prompt output_path RNone tr"
  unfolding generate_def
  by (simp only: generate_gemini_invalid [OF assms] generate_freepik_invalid [OF assms]
      generate_replicate_invalid [OF assms] generate_dalle_invalid [OF assms]
      generate_fal_invalid [OF assms])

theorem invalid_reference_is_no_reference_witness:
  "invalid_reference offline_world (RStr ''missing.png'') \<and>
   generate offline_world (gen ''dalle'') ''a cat'' ''out.png'' (RStr ''missing.png'') [] =
   generate offline_world (gen ''dalle'') ''a cat'' ''out.png'' RNone []"
proof -
  have h: "invalid_reference offline_world (RStr ''missing.png'')"
    by (simp add: invalid_reference_def offline_world_def)
  from invalid_reference_is_no_reference [OF h] h show ?thesis by simp
qed

subsection \<open>Polling terminates after at most 60 attempts\<close>

lemma adds_append [simp]: "adds s g tr (tr @ evs) \<longleftrightarrow> bounded_events s g evs"
  by (simp add: adds_def)

lemma adds_refl [simp]: "adds s g tr tr"
  using adds_append [of s g tr "[]"] by (simp add: bounded_events_def)

lemma adds_step:
  "adds s g tr tr1 \<Longrightarrow> adds s' g' tr1 tr2 \<Longrightarrow> s + s' \<le> s'' \<Longrightarrow> g + g' \<le> g''
     \<Longrightarrow> adds s'' g'' tr tr2"
  by (auto simp: adds_def bounded_events_def)

lemma adds_mono: "adds s g tr tr' \<Longrightarrow> s \<le> s' \<Longrightarrow> g \<le> g' \<Longrightarrow> adds s' g' tr tr'"
  by (auto simp: adds_def bounded_events_def)

lemma download_adds: "download w u out tr = (r, tr') \<Longrightarrow> adds 0 (Suc 0) tr tr'"
  by (auto simp: download_def Let_def bounded_events_def split: json.splits sum.splits)

lemma save_base64_adds: "save_base64 w b out tr = (r, tr') \<Longrightarrow> adds 0 (Suc 0) tr tr'"
  by (auto simp: save_base64_def bounded_events_def split: sum.splits)

lemma save_value_adds: "save_value w k v out tr = (r, tr') \<Longrightarrow> adds 0 (Suc 0) tr tr'"
  by (auto simp: save_value_def dest: download_adds save_base64_adds split: if_splits)

lemma returned_eq: "returned x = (r, tr') \<Longrightarrow> \<exists>r0. x = (r0, tr')"
  by (auto simp: returned_def split: prod.splits sum.splits)

lemma save_by_keys_adds:
  "save_by_keys w k1 k2 info out tr = (r, tr') \<Longrightarrow> adds 0 (Suc 0) tr tr'"
  by (auto simp: save_by_keys_def dest!: returned_eq dest: save_value_adds
      split: sum.splits bool.splits)

lemma poll_freepik_completed_adds:
  "poll_freepik_completed w result out tr = (r, tr') \<Longrightarrow> adds 0 (Suc 0) tr tr'"
  by (auto simp: poll_freepik_completed_def Let_def dest: save_by_keys_adds
      split: sum.splits option.splits prod.splits if_splits)

lemma poll_freepik_try_events:
  assumes "poll_freepik_try w url out tr = (r, tr')"
  shows "\<exists>rest. tr' = tr @ HttpGet url # rest \<and> bounded_events 0 (Suc 0) rest"
proof -
  have "tr' = tr @ [HttpGet url] \<or>
        (\<exists>result r0. poll_freepik_completed w result out (tr @ [HttpGet url]) = (r0, tr'))"
    using assms
    by (auto simp: poll_freepik_try_def Let_def dest!: returned_eq
        split: sum.splits prod.splits if_splits)
  then show ?thesis
  proof
    assume "tr' = tr @ [HttpGet url]"
    then show ?thesis by (simp add: bounded_events_def)
  next
    assume "\<exists>result r0. poll_freepik_completed w result out (tr @ [HttpGet url]) = (r0, tr')"
    then obtain result r0 where
      "poll_freepik_completed w result out (tr @ [HttpGet url]) = (r0, tr')" by blast
    then have "adds 0 (Suc 0) (tr @ [HttpGet url]) tr'" by (rule poll_freepik_completed_adds)
    then show ?thesis by (auto simp: adds_def)
  qed
qed

lemma poll_freepik_attempt_events:
  assumes "poll_freepik_attempt w url out attempt tr = (r, tr')"
  shows "\<exists>seg. tr' = tr @ seg \<and> attempt_events url seg"
proof -
  obtain r1 tr1 where t: "poll_freepik_try w url out tr = (r1, tr1)"
    by (cases "poll_freepik_try w url out tr")
  from poll_freepik_try_events [OF t] obtain rest where
    rest: "tr1 = tr @ HttpGet url # rest" "bounded_events 0 (Suc 0) rest" by blast
  from assms t have "tr' = tr1 \<or> tr' = tr1 @ [Sleep 2]"
    by (auto simp: poll_freepik_attempt_def split: sum.splits option.splits if_splits)
  then show ?thesis
  proof
    assume "tr' = tr1"
    with rest have "tr' = tr @ (HttpGet url # rest)" "attempt_events url (HttpGet url # rest)"
      by (simp_all add: attempt_events_def bounded_events_def)
    then show ?thesis by blast
  next
    assume "tr' = tr1 @ [Sleep 2]"
    with rest have "tr' = tr @ (HttpGet url # rest @ [Sleep 2])"
      "attempt_events url (HttpGet url # rest @ [Sleep 2])"
      by (simp_all add: attempt_events_def bounded_events_def)
    then show ?thesis by blast
  qed
qed

lemma poll_freepik_loop_events:
  "poll_freepik_loop w url out as tr = (r, tr') \<Longrightarrow>
   \<exists>segs. tr' = tr @ concat segs \<and> length segs \<le> length as \<and>
          list_all (attempt_events url) segs"
proof (induction as arbitrary: tr)
  case Nil
  then have "tr' = tr @ concat []" by simp
  then show ?case by (intro exI [of _ "[]"]) simp
next
  case (Cons a as)
  obtain r1 tr1 where t: "poll_freepik_attempt w url out a tr = (r1, tr1)"
    by (cases "poll_freepik_attempt w url out a tr")
  from poll_freepik_attempt_events [OF t] obtain seg where
    seg: "tr1 = tr @ seg" "attempt_events url seg" by blast
  show ?case
  proof (cases r1)
    case None
    with Cons.prems t have "poll_freepik_loop w url out as tr1 = (r, tr')" by simp
    from Cons.IH [OF this] obtain segs where
      "tr' = tr1 @ concat segs" "length segs \<le> length as" "list_all (attempt_events url) segs"
      by blast
    with seg show ?thesis by (intro exI [of _ "seg # segs"]) simp
  next
    case (Some res)
    with Cons.prems t have "tr' = tr1" by simp
    with seg show ?thesis by (intro exI [of _ "[seg]"]) simp
  qed
qed

lemma replicate_succeeded_adds:
  "replicate_succeeded w result out tr = (r, tr') \<Longrightarrow> adds 0 (Suc 0) tr tr'"
  by (auto simp: replicate_succeeded_def dest: download_adds split: sum.splits json.splits)

lemma replicate_poll_attempt_events:
  assumes "replicate_poll_attempt w url out tr = (r, tr')"
  shows "\<exists>seg. tr' = tr @ seg \<and> attempt_events url seg"
proof -
  have "tr' = tr @ [HttpGet url] \<or> tr' = tr @ [HttpGet url, Sleep 2] \<or>
        (\<exists>result r0. replicate_succeeded w result out (tr @ [HttpGet url]) = (r0, tr'))"
    using assms
    by (auto simp: replicate_poll_attempt_def Let_def
        split: sum.splits prod.splits if_splits)
  then consider "tr' = tr @ [HttpGet url]" | "tr' = tr @ [HttpGet url, Sleep 2]"
    | result r0 where "replicate_succeeded w result out (tr @ [HttpGet url]) = (r0, tr')"
    by blast
  then show ?thesis
  proof cases
    case 1
    then show ?thesis by (simp add: attempt_events_def bounded_events_def)
  next
    case 2
    then show ?thesis by (simp add: attempt_events_def bounded_events_def)
  next
    case 3
    then have "adds 0 (Suc 0) (tr @ [HttpGet url]) tr'" by (rule replicate_succeeded_adds)
    then obtain rest where "tr' = tr @ (HttpGet url # rest)" "bounded_events 0 (Suc 0) rest"
      by (auto simp: adds_def)
    moreover from this have "attempt_events url (HttpGet url # rest)"
      by (simp add: attempt_events_def bounded_events_def)
    ultimately show ?thesis by blast
  qed
qed

lemma replicate_poll_loop_events:
  "replicate_poll_loop w url out as tr = (r, tr') \<Longrightarrow>
   \<exists>segs. tr' = tr @ concat segs \<and> length segs \<le> length as \<and>
          list_all (attempt_events url) segs"
proof (induction as arbitrary: tr)
  case Nil
  then have "tr' = tr @ concat []" by simp
  then show ?case by (intro exI [of _ "[]"]) simp
next
  case (Cons a as)
  obtain r1 tr1 where t: "replicate_poll_attempt w url out tr = (r1, tr1)"
    by (cases "replicate_poll_attempt w url out tr")
  from replicate_poll_attempt_events [OF t] obtain seg where
    seg: "tr1 = tr @ seg" "attempt_events url seg" by blast
  show ?case
  proof (cases r1)
    case None
    with Cons.prems t have "replicate_poll_loop w url out as tr1 = (r, tr')" by simp
    from Cons.IH [OF this] obtain segs where
      "tr' = tr1 @ concat segs" "length segs \<le> length as" "list_all (attempt_events url) segs"
      by blast
    with seg show ?thesis by (intro exI [of _ "seg # segs"]) simp
  next
    case (Some res)
    with Cons.prems t have "tr' = tr1" by simp
    with seg show ?thesis by (intro exI [of _ "[seg]"]) simp
  qed
qed

















subsection \<open>The retry without the reference image\<close>


















subsection \<open>Prompts on the trace\<close>

lemma is_prefix_iff: "is_prefix n s \<longleftrightarrow> (\<exists>b. s = n @ b)"
  by (induction n s rule: is_prefix.induct) auto

lemma contains_iff: "contains n s \<longleftrightarrow> (\<exists>a b. s = a @ n @ b)"
proof (induction s)
  case Nil
  then show ?case by auto
next
  case (Cons c s)
  show ?case
  proof
    assume "contains n (c # s)"
    then consider "is_prefix n (c # s)" | "contains n s" by auto
    then show "\<exists>a b. c # s = a @ n @ b"
    proof cases
      case 1
      then obtain b where "c # s = n @ b" by (auto simp: is_prefix_iff)
      then have "c # s = [] @ n @ b" by simp
      then show ?thesis by blast
    next
      case 2
      with Cons.IH obtain a b where "s = a @ n @ b" by blast
      then have "c # s = (c # a) @ n @ b" by simp
      then show ?thesis by blast
    qed
  next
    assume "\<exists>a b. c # s = a @ n @ b"
    then obtain a b where e: "c # s = a @ n @ b" by blast
    show "contains n (c # s)"
    proof (cases a)
      case Nil
      with e have "is_prefix n (c # s)" by (auto simp: is_prefix_iff)
      then show ?thesis by simp
    next
      case (Cons d a')
      with e have "s = a' @ n @ b" by simp
      with Cons.IH have "contains n s" by blast
      then show ?thesis by simp
    qed
  qed
qed

lemma contains_append_left: "contains n a \<Longrightarrow> contains n (a @ b)"
  by (auto simp: contains_iff) (metis append.assoc)

lemma contains_append_right: "contains n b \<Longrightarrow> contains n (a @ b)"
  by (auto simp: contains_iff) (metis append.assoc)

lemma contains_middle: "contains p (a @ p @ b)"
  by (auto simp: contains_iff)

lemma contains_take:
  assumes "contains n a" "length a \<le> k"
  shows "contains n (take k (a @ b))"
proof -
  from assms(2) have "take k (a @ b) = a @ take (k - length a) b" by simp
  with assms(1) show ?thesis by (simp add: contains_append_left)
qed

lemma take_short: "length (take k e) < k \<Longrightarrow> take k e = e"
  by (cases "length e \<le> k") auto

lemma extends_refl [simp]: "extends P tr tr"
  by (simp add: extends_def)

lemma extends_trans: "extends P tr tr1 \<Longrightarrow> extends P tr1 tr2 \<Longrightarrow> extends P tr tr2"
  by (auto simp: extends_def)

lemma extends_append [simp]: "extends P tr (tr @ evs) \<longleftrightarrow> list_all P evs"
  by (simp add: extends_def)

lemma extends_mono: "extends P tr tr' \<Longrightarrow> (\<And>e. P e \<Longrightarrow> Q e) \<Longrightarrow> extends Q tr tr'"
  by (auto simp: extends_def list_all_iff)

lemma extends_snoc: "extends P tr tr1 \<Longrightarrow> P e \<Longrightarrow> extends P tr (tr1 @ [e])"
  by (auto simp: extends_def)

lemma quiet_prompts_ok: "is_quiet e \<Longrightarrow> prompts_ok good e"
  by (cases e) (simp_all add: prompts_ok_def)

lemma adds_quiet: "adds s g tr tr' \<Longrightarrow> extends is_quiet tr tr'"
  by (auto simp: adds_def bounded_events_def extends_def)

lemma attempt_events_quiet: "attempt_events url seg \<Longrightarrow> list_all is_quiet seg"
  by (auto simp: attempt_events_def bounded_events_def split: list.splits event.splits)

lemma segments_quiet:
  "list_all (attempt_events url) segs \<Longrightarrow> list_all is_quiet (concat segs)"
  by (induction segs) (auto simp: attempt_events_quiet)

lemma poll_freepik_job_quiet:
  assumes "poll_freepik_job w job_id out tr = (r, tr')"
  shows "extends is_quiet tr tr'"
proof -
  from assms have "poll_freepik_loop w (freepik_status_url w job_id) out [0..<max_attempts] tr = (r, tr')"
    by (simp add: poll_freepik_job_def)
  from poll_freepik_loop_events [OF this] show ?thesis
    by (auto simp: segments_quiet)
qed

lemma replicate_poll_loop_quiet:
  assumes "replicate_poll_loop w url out as tr = (r, tr')"
  shows "extends is_quiet tr tr'"
  using replicate_poll_loop_events [OF assms] by (auto simp: segments_quiet)

lemma download_quiet: "download w u out tr = (r, tr') \<Longrightarrow> extends is_quiet tr tr'"
  by (rule adds_quiet [OF download_adds])

lemma save_by_keys_quiet: "save_by_keys w k1 k2 info out tr = (r, tr') \<Longrightarrow> extends is_quiet tr tr'"
  by (rule adds_quiet [OF save_by_keys_adds])

lemma extract_freepik_image_quiet:
  "extract_freepik_image w result out tr = (r, tr') \<Longrightarrow> extends is_quiet tr tr'"
  by (auto simp: extract_freepik_image_def dest: save_by_keys_quiet
      split: sum.splits option.splits prod.splits)

lemma freepik_from_data_quiet:
  "freepik_from_data w image_data out tr = (r, tr') \<Longrightarrow> extends is_quiet tr tr'"
  by (auto simp: freepik_from_data_def dest!: returned_eq
      dest: save_by_keys_quiet poll_freepik_job_quiet
      split: json.splits list.splits sum.splits bool.splits)

lemma freepik_handle_result_quiet:
  assumes "freepik_handle_result w result out tr = (r, tr')"
  shows "extends is_quiet tr tr'"
proof -
  obtain r1 tr1 where d: "(case py_in ''data'' result of
              Inl e \<Rightarrow> (Inl e, tr)
            | Inr False \<Rightarrow> (Inr None, tr)
            | Inr True \<Rightarrow>
                (case py_getitem result ''data'' of
                   Inl e \<Rightarrow> (Inl e, tr)
                 | Inr image_data \<Rightarrow> freepik_from_data w image_data out tr)) = (r1, tr1)"
    by (metis surj_pair)
  then have q1: "extends is_quiet tr tr1"
    by (auto dest: freepik_from_data_quiet split: sum.splits bool.splits)
  from assms d have "tr' = tr1 \<or> (\<exists>job_id. poll_freepik_job w job_id out tr1 = (r, tr'))"
    unfolding freepik_handle_result_def
    by (auto split: sum.splits option.splits bool.splits)
  then have "extends is_quiet tr1 tr'" by (auto dest: poll_freepik_job_quiet)
  with q1 show ?thesis by (rule extends_trans)
qed

subsection \<open>Requests of the Freepik, Replicate, DALL-E and fal providers\<close>

lemma freepik_text_to_image_trace:
  assumes "freepik_text_to_image w prompt out tr = (r, tr')"
  shows "\<exists>evs. tr' = tr @ HttpPost ''https://api.freepik.com/v1/ai/text-to-image''
                         (freepik_payload (freepik_text_prompt prompt)) # evs \<and>
               list_all is_quiet evs"
proof -
  let ?tr1 = "tr @ [HttpPost ''https://api.freepik.com/v1/ai/text-to-image''
                         (freepik_payload (freepik_text_prompt prompt))]"
  from assms have "tr' = ?tr1 \<or> (\<exists>result. freepik_handle_result w result out ?tr1 = (r, tr'))"
    by (auto simp: freepik_text_to_image_def Let_def split: sum.splits)
  then have "extends is_quiet ?tr1 tr'"
    by (auto dest: freepik_handle_result_quiet)
  then show ?thesis by (auto simp: extends_def)
qed

lemma freepik_reference_attempt_trace:
  assumes "freepik_reference_attempt w out (url, payload) tr = (r, tr')"
  shows "\<exists>evs. tr' = tr @ HttpPost url payload # evs \<and> list_all is_quiet evs"
proof -
  let ?tr1 = "tr @ [HttpPost url payload]"
  from assms have "tr' = ?tr1 \<or>
      (\<exists>result r0. extract_freepik_image w result out ?tr1 = (r0, tr'))"
    by (auto simp: freepik_reference_attempt_def Let_def split: sum.splits if_splits prod.splits)
  then have "extends is_quiet ?tr1 tr'"
    by (auto dest: extract_freepik_image_quiet)
  then show ?thesis by (auto simp: extends_def)
qed

lemma freepik_reference_loop_extends:
  assumes q: "\<And>e. is_quiet e \<Longrightarrow> P e"
  shows "list_all (\<lambda>(url, payload). P (HttpPost url payload)) eps \<Longrightarrow>
         freepik_reference_loop w out eps tr = (r, tr') \<Longrightarrow> extends P tr tr'"
proof (induction eps arbitrary: tr)
  case Nil
  then show ?case by simp
next
  case (Cons ep eps)
  obtain url payload where ep: "ep = (url, payload)" by (cases ep)
  obtain r1 tr1 where a: "freepik_reference_attempt w out (url, payload) tr = (r1, tr1)"
    by (metis surj_pair)
  from freepik_reference_attempt_trace [OF a] obtain evs where
    evs: "tr1 = tr @ HttpPost url payload # evs" "list_all is_quiet evs" by blast
  from Cons.prems(1) ep have "P (HttpPost url payload)" by simp
  with evs q have e1: "extends P tr tr1" by (auto simp: extends_def list_all_iff)
  show ?case
  proof (cases r1)
    case None
    with Cons.prems a ep have "freepik_reference_loop w out eps tr1 = (r, tr')" by simp
    moreover from Cons.prems(1) have "list_all (\<lambda>(url, payload). P (HttpPost url payload)) eps"
      by simp
    ultimately have "extends P tr1 tr'" by (rule Cons.IH [rotated])
    with e1 show ?thesis by (rule extends_trans)
  next
    case (Some p)
    with Cons.prems a ep have "tr' = tr1" by simp
    with e1 show ?thesis by simp
  qed
qed

lemma generate_freepik_extends:
  assumes q: "\<And>e. is_quiet e \<Longrightarrow> P e"
      and ref: "\<And>img. list_all (\<lambda>(url, payload). P (HttpPost url payload))
                  (freepik_reference_endpoints img (freepik_reference_prompt prompt))"
      and post_ok: "P (HttpPost ''https://api.freepik.com/v1/ai/text-to-image''
                         (freepik_payload (freepik_text_prompt prompt)))"
      and g: "generate_freepik w self prompt out reference_image_path tr = (r, tr')"
  shows "extends P tr tr'"
proof (cases "truthy (validate_reference (path_exists w) reference_image_path)")
  case True
  let ?rv = "validate_reference (path_exists w) reference_image_path"
  from g True obtain r0 where
    "freepik_with_reference w prompt out ?rv tr = (r0, tr')"
    by (auto simp: generate_freepik_def split: prod.splits sum.splits)
  then have "tr' = tr \<or> (\<exists>img. freepik_reference_loop w out
         (freepik_reference_endpoints img (freepik_reference_prompt prompt)) tr = (r0, tr'))"
    by (auto simp: freepik_with_reference_def split: option.splits)
  then show ?thesis
    using freepik_reference_loop_extends [OF q ref] by auto
next
  case False
  with g have "freepik_text_to_image w prompt out tr = (r, tr')"
    by (simp add: generate_freepik_def)
  from freepik_text_to_image_trace [OF this] post_ok q show ?thesis
    by (auto simp: extends_def list_all_iff)
qed

lemma replicate_try_model_trace:
  assumes "replicate_try_model w payload out tr = (r, tr')"
  shows "\<exists>evs. tr' = tr @ HttpPost replicate_url payload # evs \<and> list_all is_quiet evs"
proof -
  let ?tr1 = "tr @ [HttpPost replicate_url payload]"
  from assms have "tr' = ?tr1 \<or>
      (\<exists>url. replicate_poll_loop w url out [0..<max_attempts] ?tr1 = (r, tr'))"
    by (auto simp: replicate_try_model_def Let_def split: sum.splits)
  then have "extends is_quiet ?tr1 tr'"
    by (auto dest: replicate_poll_loop_quiet)
  then show ?thesis by (auto simp: extends_def)
qed

lemma replicate_model_loop_extends:
  assumes q: "\<And>e. is_quiet e \<Longrightarrow> P e"
  shows "list_all (\<lambda>(name, payload). P (HttpPost replicate_url payload)) ms \<Longrightarrow>
         replicate_model_loop w models out ms le tr = (r, tr') \<Longrightarrow> extends P tr tr'"
proof (induction ms arbitrary: le tr)
  case Nil
  then show ?case by (auto split: option.splits)
next
  case (Cons m ms)
  obtain r1 tr1 where a: "replicate_try_model w (snd m) out tr = (r1, tr1)"
    by (metis surj_pair)
  from replicate_try_model_trace [OF a] obtain evs where
    evs: "tr1 = tr @ HttpPost replicate_url (snd m) # evs" "list_all is_quiet evs" by blast
  from Cons.prems(1) have "P (HttpPost replicate_url (snd m))" by (cases m) simp
  with evs q have e1: "extends P tr tr1" by (auto simp: extends_def list_all_iff)
  from Cons.prems(2) a have
    "tr' = tr1 \<or> (\<exists>e. replicate_model_loop w models out ms (Some e) tr1 = (r, tr'))"
    by (auto split: sum.splits if_splits)
  then show ?case
  proof
    assume "tr' = tr1"
    with e1 show ?thesis by simp
  next
    assume "\<exists>e. replicate_model_loop w models out ms (Some e) tr1 = (r, tr')"
    then obtain e where "replicate_model_loop w models out ms (Some e) tr1 = (r, tr')" by blast
    moreover from Cons.prems(1) have
      "list_all (\<lambda>(name, payload). P (HttpPost replicate_url payload)) ms" by simp
    ultimately have "extends P tr1 tr'" by (rule Cons.IH [rotated])
    with e1 show ?thesis by (rule extends_trans)
  qed
qed

lemma generate_replicate_extends:
  assumes q: "\<And>e. is_quiet e \<Longrightarrow> P e"
      and m: "\<And>img. list_all (\<lambda>(name, payload). P (HttpPost replicate_url payload))
                  (replicate_models (replicate_prompt prompt) img)"
      and g: "generate_replicate w self prompt out reference_image_path tr = (r, tr')"
  shows "extends P tr tr'"
proof -
  from g have "tr' = tr \<or> (\<exists>img. replicate_model_loop w
      (replicate_models (replicate_prompt prompt) img) out
      (replicate_models (replicate_prompt prompt) img) None tr = (r, tr'))"
    by (auto simp: generate_replicate_def Let_def split: sum.splits if_splits option.splits)
  then show ?thesis
    using replicate_model_loop_extends [OF q m] by auto
qed

lemma generate_dalle_trace:
  assumes "generate_dalle w self prompt out reference_image_path tr = (r, tr')"
  shows "\<exists>pre sent evs.
           tr' = tr @ pre @ ImagesGenerate sent # evs \<and>
           (pre = [] \<and> sent = take 4000 (dalle_text_prompt prompt) \<or>
            (\<exists>d. pre = [ChatCompletion d]) \<and>
            (sent = take 4000 (dalle_text_prompt prompt) \<or>
             (\<exists>description. sent = take 4000 (dalle_context_prompt description prompt)))) \<and>
           list_all is_quiet evs"
proof -
  let ?rv = "validate_reference (path_exists w) reference_image_path"
  obtain enhanced tr1 where e: "dalle_enhanced_prompt w prompt ?rv tr = (enhanced, tr1)"
    by (metis surj_pair)
  then have pre: "tr1 = tr \<and> enhanced = dalle_text_prompt prompt \<or>
      (\<exists>d. tr1 = tr @ [ChatCompletion d]) \<and>
      (enhanced = dalle_text_prompt prompt \<or>
       (\<exists>description. enhanced = dalle_context_prompt description prompt))"
    by (auto simp: dalle_enhanced_prompt_def Let_def split: if_splits option.splits sum.splits)
  let ?tr2 = "tr1 @ [ImagesGenerate (take 4000 enhanced)]"
  from assms e have "tr' = ?tr2 \<or> (\<exists>u. download w u out ?tr2 = (r, tr'))"
    by (auto simp: generate_dalle_def Let_def split: sum.splits)
  then have "extends is_quiet ?tr2 tr'" by (auto dest: download_quiet)
  then obtain evs where evs: "tr' = tr1 @ ImagesGenerate (take 4000 enhanced) # evs"
    "list_all is_quiet evs" by (auto simp: extends_def)
  from pre show ?thesis
  proof
    assume "tr1 = tr \<and> enhanced = dalle_text_prompt prompt"
    with evs show ?thesis
      by (intro exI [of _ "[]"] exI [of _ "take 4000 enhanced"] exI [of _ evs]) simp
  next
    assume a: "(\<exists>d. tr1 = tr @ [ChatCompletion d]) \<and>
      (enhanced = dalle_text_prompt prompt \<or>
       (\<exists>description. enhanced = dalle_context_prompt description prompt))"
    then obtain d where d: "tr1 = tr @ [ChatCompletion d]" by blast
    with evs a show ?thesis
      by (intro exI [of _ "[ChatCompletion d]"] exI [of _ "take 4000 enhanced"] exI [of _ evs])
         auto
  qed
qed

lemma generate_dalle_no_reference:
  assumes "generate_dalle w self prompt out RNone tr = (r, tr')"
  shows "\<exists>evs. tr' = tr @ ImagesGenerate (take 4000 (dalle_text_prompt prompt)) # evs"
proof -
  let ?tr2 = "tr @ [ImagesGenerate (take 4000 (dalle_text_prompt prompt))]"
  from assms have "tr' = ?tr2 \<or> (\<exists>u. download w u out ?tr2 = (r, tr'))"
    by (auto simp: generate_dalle_def dalle_enhanced_prompt_def validate_reference_def Let_def
        split: sum.splits)
  then have "extends is_quiet ?tr2 tr'" by (auto dest: download_quiet)
  then show ?thesis by (auto simp: extends_def)
qed

lemma generate_fal_trace:
  assumes "generate_fal w self prompt out reference_image_path tr = (r, tr')"
  shows "tr' = tr \<or>
         (\<exists>img evs. tr' = tr @ FalSubscribe (fal_arguments (fal_prompt prompt) img) # evs \<and>
                     list_all is_quiet evs)"
proof -
  from assms have "tr' = tr \<or>
     (\<exists>img. tr' = tr @ [FalSubscribe (fal_arguments (fal_prompt prompt) img)] \<or>
        (\<exists>u. download w u out (tr @ [FalSubscribe (fal_arguments (fal_prompt prompt) img)])
                = (r, tr')))"
    by (auto simp: generate_fal_def Let_def split: if_splits sum.splits option.splits)
  then show ?thesis
  proof
    assume "tr' = tr" then show ?thesis by simp
  next
    assume "\<exists>img. tr' = tr @ [FalSubscribe (fal_arguments (fal_prompt prompt) img)] \<or>
        (\<exists>u. download w u out (tr @ [FalSubscribe (fal_arguments (fal_prompt prompt) img)])
                = (r, tr'))"
    then obtain img where
      "tr' = tr @ [FalSubscribe (fal_arguments (fal_prompt prompt) img)] \<or>
        (\<exists>u. download w u out (tr @ [FalSubscribe (fal_arguments (fal_prompt prompt) img)])
                = (r, tr'))" by blast
    then have "extends is_quiet (tr @ [FalSubscribe (fal_arguments (fal_prompt prompt) img)]) tr'"
      by (auto dest: download_quiet)
    then show ?thesis by (auto simp: extends_def)
  qed
qed

subsection \<open>Requests of the Gemini provider\<close>

lemma gemini_sdk_request_trace:
  assumes "gemini_sdk_request w m p reference_image_path tr = (reply, tr')"
  shows "tr' = tr @ [GenaiGenerate m p False] \<or>
         tr' = tr @ [GenaiGenerate m (''Edit this image to: '' @ p) True] \<or>
         tr' = tr @ [GenaiGenerate m (''Edit this image to: '' @ p) True, GenaiGenerate m p False]"
  using assms
  by (auto simp: gemini_sdk_request_def genai_text_call_def Let_def
      split: if_splits genai_reply.splits)

lemma gemini_sdk_save_trace:
  assumes "gemini_sdk_save reply out tr = (b, tr')"
  shows "tr' = tr \<or> (\<exists>d. tr' = tr @ [WriteFile out d])"
  using assms
  by (auto simp: gemini_sdk_save_def split: genai_reply.splits option.splits list.splits)

lemma gemini_sdk_loop_extends:
  assumes q: "\<And>e. is_quiet e \<Longrightarrow> P e"
      and t: "\<And>m. P (GenaiGenerate m p False)"
      and e: "\<And>m. P (GenaiGenerate m (''Edit this image to: '' @ p) True)"
  shows "gemini_sdk_loop w p out reference_image_path ms tr = (b, tr') \<Longrightarrow> extends P tr tr'"
proof (induction ms arbitrary: tr)
  case Nil
  then show ?case by simp
next
  case (Cons m ms)
  obtain reply tr1 where r: "gemini_sdk_request w m p reference_image_path tr = (reply, tr1)"
    by (metis surj_pair)
  obtain b2 tr2 where s: "gemini_sdk_save reply out tr1 = (b2, tr2)" by (metis surj_pair)
  from gemini_sdk_request_trace [OF r] t e have e1: "extends P tr tr1" by auto
  from gemini_sdk_save_trace [OF s] q have e2: "extends P tr1 tr2" by auto
  from Cons.prems r s have
    "tr' = tr2 \<or> gemini_sdk_loop w p out reference_image_path ms tr2 = (b, tr')"
    by (auto split: bool.splits if_splits)
  then have "extends P tr2 tr'" using Cons.IH by auto
  with e1 e2 show ?case by (blast intro: extends_trans)
qed

lemma gemini_rest_response_trace:
  assumes "gemini_rest_response w name out response tr = (r, tr')"
  shows "tr' = tr \<or> (\<exists>d. tr' = tr @ [WriteFile out d])"
  using assms
  by (auto simp: gemini_rest_response_def Let_def split: sum.splits if_splits)

lemma gemini_rest_attempt_trace:
  assumes "gemini_rest_attempt w key p out reference_image_path (name, model) tr = (r, tr')"
  shows "\<exists>evs. tr' = tr @ HttpPost (gemini_url key model)
                   (gemini_payload (gemini_content_parts w p reference_image_path)) # evs \<and>
               list_all is_quiet evs"
proof -
  let ?tr1 = "tr @ [HttpPost (gemini_url key model)
                   (gemini_payload (gemini_content_parts w p reference_image_path))]"
  from assms have "tr' = ?tr1 \<or>
      (\<exists>response. gemini_rest_response w name out response ?tr1 = (r, tr'))"
    by (auto simp: gemini_rest_attempt_def Let_def split: sum.splits py_error.splits)
  then have "tr' = ?tr1 \<or> (\<exists>d. tr' = ?tr1 @ [WriteFile out d])"
    by (auto dest: gemini_rest_response_trace)
  then show ?thesis by auto
qed

lemma gemini_rest_loop_extends:
  assumes q: "\<And>e. is_quiet e \<Longrightarrow> P e"
      and t: "\<And>u. P (HttpPost u (gemini_payload (gemini_content_parts w p reference_image_path)))"
  shows "gemini_rest_loop w key p out reference_image_path eps le tr = (r, tr') \<Longrightarrow>
         extends P tr tr'"
proof (induction eps arbitrary: le tr)
  case Nil
  then show ?case by simp
next
  case (Cons ep eps)
  obtain name model where ep: "ep = (name, model)" by (cases ep)
  obtain r1 tr1 where
    a: "gemini_rest_attempt w key p out reference_image_path (name, model) tr = (r1, tr1)"
    by (metis surj_pair)
  from gemini_rest_attempt_trace [OF a] q t have e1: "extends P tr tr1"
    by (auto simp: extends_def list_all_iff)
  from Cons.prems a ep have
    "tr' = tr1 \<or> (\<exists>le'. gemini_rest_loop w key p out reference_image_path eps le' tr1 = (r, tr'))"
    by (auto split: sum.splits)
  then have "extends P tr1 tr'" using Cons.IH by auto
  with e1 show ?case by (rule extends_trans)
qed

lemma gemini_candidates_extends:
  assumes q: "\<And>e. is_quiet e \<Longrightarrow> P e"
      and t: "\<And>m. P (GenaiGenerate m p False)"
      and e: "\<And>m. P (GenaiGenerate m (''Edit this image to: '' @ p) True)"
      and h: "\<And>u. P (HttpPost u (gemini_payload (gemini_content_parts w p reference_image_path)))"
      and c: "gemini_candidates w key p out reference_image_path tr = (r, tr')"
  shows "extends P tr tr'"
proof -
  obtain b tr1 where s: "gemini_sdk_loop w p out reference_image_path gemini_models_to_try tr = (b, tr1)"
    by (metis surj_pair)
  from gemini_sdk_loop_extends [OF q t e s] have e1: "extends P tr tr1" .
  from c s have "tr' = tr1 \<or>
      gemini_rest_loop w key p out reference_image_path gemini_endpoints_to_try None tr1 = (r, tr')"
    by (auto simp: gemini_candidates_def split: bool.splits if_splits)
  then have "extends P tr1 tr'"
    using gemini_rest_loop_extends [of P w p reference_image_path, OF q h] by auto
  with e1 show ?thesis by (rule extends_trans)
qed

lemma generate_gemini_extends:
  assumes q: "\<And>e. is_quiet e \<Longrightarrow> P e"
      and t: "\<And>m p. p = gemini_enhanced_prompt prompt \<or>
                     p = gemini_enhanced_prompt (gemini_enhanced_prompt prompt) \<Longrightarrow>
                P (GenaiGenerate m p False) \<and>
                P (GenaiGenerate m (''Edit this image to: '' @ p) True)"
      and h: "\<And>u p rv. p = gemini_enhanced_prompt prompt \<or>
                     p = gemini_enhanced_prompt (gemini_enhanced_prompt prompt) \<Longrightarrow>
                P (HttpPost u (gemini_payload (gemini_content_parts w p rv)))"
      and g: "generate_gemini w self prompt out reference_image_path tr = (r, tr')"
  shows "extends P tr tr'"
proof -
  let ?p1 = "gemini_enhanced_prompt prompt"
  let ?p2 = "gemini_enhanced_prompt (gemini_enhanced_prompt prompt)"
  let ?rv = "validate_reference (path_exists w) reference_image_path"
  obtain r1 tr1 where c1: "gemini_candidates w (api_key self) ?p1 out ?rv tr = (r1, tr1)"
    by (metis surj_pair)
  have e1: "extends P tr tr1"
  proof (rule gemini_candidates_extends [of P ?p1 w ?rv, OF q _ _ _ c1])
    show "P (GenaiGenerate m ?p1 False)" for m using t by blast
    show "P (GenaiGenerate m (''Edit this image to: '' @ ?p1) True)" for m using t by blast
    show "P (HttpPost u (gemini_payload (gemini_content_parts w ?p1 ?rv)))" for u
      using h by blast
  qed
  from g c1 have "tr' = tr1 \<or> generate_gemini w self ?p1 out RNone tr1 = (r, tr')"
    by (subst (asm) generate_gemini.simps) (auto split: sum.splits if_splits)
  then show ?thesis
  proof
    assume "tr' = tr1"
    with e1 show ?thesis by simp
  next
    assume g2: "generate_gemini w self ?p1 out RNone tr1 = (r, tr')"
    obtain r2 tr2 where c2: "gemini_candidates w (api_key self) ?p2 out RNone tr1 = (r2, tr2)"
      by (metis surj_pair)
    have e2: "extends P tr1 tr2"
    proof (rule gemini_candidates_extends [of P ?p2 w RNone, OF q _ _ _ c2])
      show "P (GenaiGenerate m ?p2 False)" for m using t by blast
      show "P (GenaiGenerate m (''Edit this image to: '' @ ?p2) True)" for m using t by blast
      show "P (HttpPost u (gemini_payload (gemini_content_parts w ?p2 RNone)))" for u
        using h by blast
    qed
    from g2 c2 have "tr' = tr2"
      by (subst (asm) generate_gemini.simps)
         (auto simp: validate_reference_def split: sum.splits)
    with e1 e2 show ?thesis by (blast intro: extends_trans)
  qed
qed

lemma generate_gemini_no_reference:
  assumes "generate_gemini w self prompt out RNone tr = (r, tr')"
  shows "\<exists>evs. tr' = tr @ GenaiGenerate (hd gemini_models_to_try)
                            (gemini_enhanced_prompt prompt) False # evs"
proof -
  let ?p = "gemini_enhanced_prompt prompt"
  let ?m = "''gemini-2.5-flash-image''"
  let ?ms = "[''gemini-2.5-flash-image-preview'', ''gemini-2.0-flash-preview-image-generation'']"
  let ?tr1 = "tr @ [GenaiGenerate ?m ?p False]"
  have top: "\<And>e::event. is_quiet e \<Longrightarrow> True" by simp
  obtain r1 tr2 where c: "gemini_candidates w (api_key self) ?p out RNone tr = (r1, tr2)"
    by (metis surj_pair)
  from assms c have t2: "tr' = tr2"
    by (subst (asm) generate_gemini.simps)
       (auto simp: validate_reference_def split: sum.splits)
  obtain b tr3 where s: "gemini_sdk_loop w ?p out RNone gemini_models_to_try tr = (b, tr3)"
    by (metis surj_pair)
  have rq: "gemini_sdk_request w ?m ?p RNone tr = (genai_generate w tr ?m ?p False, ?tr1)"
    by (simp add: gemini_sdk_request_def gemini_has_reference_def genai_text_call_def)
  obtain b2 tr4 where sv: "gemini_sdk_save (genai_generate w tr ?m ?p False) out ?tr1 = (b2, tr4)"
    by (metis surj_pair)
  from gemini_sdk_save_trace [OF sv] have e4: "extends (\<lambda>e. True) ?tr1 tr4"
    by (auto simp: extends_def)
  from s rq sv have "tr3 = tr4 \<or> gemini_sdk_loop w ?p out RNone ?ms tr4 = (b, tr3)"
    by (auto simp: gemini_models_to_try_def split: bool.splits if_splits)
  then have e3: "extends (\<lambda>e. True) tr4 tr3"
    using gemini_sdk_loop_extends [of "\<lambda>e. True" ?p w out RNone ?ms tr4 b tr3] by auto
  from c s have "tr2 = tr3 \<or>
      gemini_rest_loop w (api_key self) ?p out RNone gemini_endpoints_to_try None tr3 = (r1, tr2)"
    by (auto simp: gemini_candidates_def split: bool.splits if_splits)
  then have e2: "extends (\<lambda>e. True) tr3 tr2"
    using gemini_rest_loop_extends [of "\<lambda>e. True" w ?p RNone "api_key self" out
        gemini_endpoints_to_try None tr3 r1 tr2] by auto
  from e4 e3 e2 have "extends (\<lambda>e. True) ?tr1 tr2" by (blast intro: extends_trans)
  with t2 show ?thesis by (auto simp: extends_def gemini_models_to_try_def)
qed

lemma generate_replicate_no_reference:
  assumes "generate_replicate w self prompt out RNone tr = (r, tr')"
  shows "\<exists>evs. tr' = tr @ HttpPost replicate_url
                   (snd (hd (replicate_models (replicate_prompt prompt) None))) # evs"
proof -
  let ?models = "replicate_models (replicate_prompt prompt) None"
  obtain m1 m2 where ms: "?models = [m1, m2]" by (simp add: replicate_models_def)
  from assms have l: "replicate_model_loop w ?models out ?models None tr = (r, tr')"
    by (simp add: generate_replicate_def validate_reference_def Let_def)
  obtain r1 tr1 where a: "replicate_try_model w (snd m1) out tr = (r1, tr1)"
    by (metis surj_pair)
  from replicate_try_model_trace [OF a] obtain evs where
    evs: "tr1 = tr @ HttpPost replicate_url (snd m1) # evs" by blast
  from l ms a have
    "tr' = tr1 \<or> (\<exists>e. replicate_model_loop w ?models out [m2] (Some e) tr1 = (r, tr'))"
    by (auto split: sum.splits if_splits)
  then have "extends (\<lambda>e. True) tr1 tr'"
    using replicate_model_loop_extends [of "\<lambda>e. True" "[m2]" w ?models out _ tr1 r tr']
    by (auto simp: list_all_iff)
  with evs ms show ?thesis by (auto simp: extends_def)
qed

subsection \<open>No validation of the prompt\<close>

lemma generate_freepik_no_reference:
  assumes "generate_freepik w self prompt out RNone tr = (r, tr')"
  shows "\<exists>evs. tr' = tr @ HttpPost ''https://api.freepik.com/v1/ai/text-to-image''
                         (freepik_payload (freepik_text_prompt prompt)) # evs"
proof -
  from assms have "freepik_text_to_image w prompt out tr = (r, tr')"
    by (simp add: generate_freepik_def validate_reference_def)
  from freepik_text_to_image_trace [OF this] show ?thesis by blast
qed

lemma generate_fal_no_reference:
  assumes "generate_fal w self prompt out RNone tr = (r, tr')" and "fal_installed w"
  shows "\<exists>evs. tr' = tr @ FalSubscribe (fal_arguments (fal_prompt prompt) None) # evs"
proof -
  let ?tr1 = "tr @ [FalSubscribe (fal_arguments (fal_prompt prompt) None)]"
  from assms have "tr' = ?tr1 \<or> (\<exists>u. download w u out ?tr1 = (r, tr'))"
    by (auto simp: generate_fal_def validate_reference_def Let_def
        split: sum.splits option.splits)
  then have "extends is_quiet ?tr1 tr'" by (auto dest: download_quiet)
  then show ?thesis by (auto simp: extends_def)
qed

text \<open>
  Claim C8, as stated, fails: \<^verbatim>\<open>generate\<close> does not check the prompt. With the DALL-E
  provider and the empty prompt, in a world where the image service answers, the
  call sends the template around the empty prompt, downloads the image and returns
  the output path; no error is raised.
\<close>

theorem empty_prompt_counterexample:
  "generate online_world (gen ''dalle'') [] ''out.png'' RNone [] =
     (Inr ''out.png'',
      [ImagesGenerate ''YouTube thumbnail style, 16:9 aspect ratio: . Professional, high quality, eye-catching, modern design'',
       HttpGet ''https://example.org/1.png'',
       WriteFile ''out.png'' ''IMG''])"
  by (simp add: generate_def gen_def generate_dalle_def validate_reference_def
      dalle_enhanced_prompt_def dalle_text_prompt_def online_world_def offline_world_def
      download_def raise_for_status_def ok_response_def Let_def)

text \<open>
  Claim C8, amended. \<^verbatim>\<open>generate\<close> checks the service name only, never the prompt. For
  every supported provider (for fal, when the client library is installed) and every
  prompt, the empty one included, a call without a reference image starts with the
  provider's request carrying the template around the prompt. For any other service
  name the call raises \<^verbatim>\<open>ValueError\<close> with the message \<open>Unsupported service\<close> and makes
  no request, whatever the prompt and the reference.
\<close>

theorem no_prompt_validation:
  "(\<forall>ev. first_request self prompt = Some ev \<longrightarrow>
         (service self = ''fal'' \<longrightarrow> fal_installed w) \<longrightarrow>
         (\<exists>r evs. generate w self prompt output_path RNone tr = (r, tr @ ev # evs))) \<and>
   (first_request self prompt = None \<longrightarrow>
      generate w self prompt output_path reference_image_path tr =
        (Inl (ValueError (''Unsupported service: '' @ service self)), tr))"
proof (intro conjI allI impI)
  fix ev
  assume f: "first_request self prompt = Some ev"
    and i: "service self = ''fal'' \<longrightarrow> fal_installed w"
  obtain r tr' where g: "generate w self prompt output_path RNone tr = (r, tr')"
    by (metis surj_pair)
  consider "service self = ''freepik''" | "service self = ''dalle''" | "service self = ''gemini''"
    | "service self = ''replicate''" | "service self = ''fal''"
    using f by (auto simp: first_request_def split: if_splits)
  then have "\<exists>evs. tr' = tr @ ev # evs"
  proof cases
    case 1
    with g f generate_freepik_no_reference [of w self prompt output_path tr r tr']
    show ?thesis by (simp add: generate_def first_request_def)
  next
    case 2
    with g f generate_dalle_no_reference [of w self prompt output_path tr r tr']
    show ?thesis by (simp add: generate_def first_request_def)
  next
    case 3
    with g f generate_gemini_no_reference [of w self prompt output_path tr r tr']
    show ?thesis by (simp add: generate_def first_request_def)
  next
    case 4
    with g f generate_replicate_no_reference [of w self prompt output_path tr r tr']
    show ?thesis by (simp add: generate_def first_request_def)
  next
    case 5
    with g f i generate_fal_no_reference [of w self prompt output_path tr r tr']
    show ?thesis by (simp add: generate_def first_request_def)
  qed
  with g show "\<exists>r evs. generate w self prompt output_path RNone tr = (r, tr @ ev # evs)"
    by blast
next
  assume "first_request self prompt = None"
  then show "generate w self prompt output_path reference_image_path tr =
        (Inl (ValueError (''Unsupported service: '' @ service self)), tr)"
    by (simp add: first_request_def generate_def split: if_splits)
qed

theorem no_prompt_validation_witness:
  "first_request (gen ''dalle'') [] =
     Some (ImagesGenerate ''YouTube thumbnail style, 16:9 aspect ratio: . Professional, high quality, eye-catching, modern design'') \<and>
   (\<exists>r evs. generate offline_world (gen ''dalle'') [] ''out.png'' RNone [] =
      (r, ImagesGenerate ''YouTube thumbnail style, 16:9 aspect ratio: . Professional, high quality, eye-catching, modern design'' # evs)) \<and>
   first_request (gen ''sketch'') [] = None \<and>
   generate offline_world (gen ''sketch'') [] ''out.png'' RNone [] =
     (Inl (ValueError ''Unsupported service: sketch''), [])"
proof -
  have f1: "first_request (gen ''dalle'') [] =
     Some (ImagesGenerate ''YouTube thumbnail style, 16:9 aspect ratio: . Professional, high quality, eye-catching, modern design'')"
    by (simp add: first_request_def gen_def dalle_text_prompt_def)
  have f2: "first_request (gen ''sketch'') [] = None"
    by (simp add: first_request_def gen_def)
  have s: "service (gen ''dalle'') \<noteq> ''fal''" "service (gen ''sketch'') = ''sketch''"
    by (simp_all add: gen_def)
  from no_prompt_validation [of "gen ''dalle''" "[]" offline_world "''out.png''" "[]"]
    no_prompt_validation [of "gen ''sketch''" "[]" offline_world "''out.png''" "[]" RNone]
    f1 f2 s
  show ?thesis by simp
qed

subsection \<open>The style templates\<close>

lemma contains_trans: "contains p q \<Longrightarrow> contains q t \<Longrightarrow> contains p t"
proof -
  assume "contains p q" "contains q t"
  then obtain a b c d where "q = a @ p @ b" "t = c @ q @ d" by (auto simp: contains_iff)
  then have "t = (c @ a) @ p @ (b @ d)" by simp
  then show ?thesis unfolding contains_iff by blast
qed

lemma augmented_template:
  assumes "contains ''16:9'' pre" "contains ''quality'' post"
      and "service self = ''gemini'' \<longrightarrow> contains ''Avoid: podcast microphones, headphones'' post"
      and "contains prompt inner"
  shows "augmented self prompt (pre @ inner @ post)"
proof -
  have "contains prompt (pre @ inner @ post)"
    using assms(4) contains_middle [of inner pre post] by (rule contains_trans)
  with assms(1-3) show ?thesis
    by (simp add: augmented_def contains_append_left contains_append_right)
qed

lemma augmented_prepend:
  assumes "augmented self prompt t"
  shows "augmented self prompt (a @ t)"
  using assms by (auto simp: augmented_def contains_append_right)

lemma contains_refl: "contains p p"
  using contains_middle [of p "[]" "[]"] by simp

lemma augmented_gemini:
  assumes "contains prompt inner"
  shows "augmented self prompt (gemini_enhanced_prompt inner)"
  unfolding gemini_enhanced_prompt_def
  by (rule augmented_template [OF _ _ _ assms]) simp_all

lemma contains_gemini: "contains prompt (gemini_enhanced_prompt prompt)"
  unfolding gemini_enhanced_prompt_def by (rule contains_middle)

lemma augmented_freepik_text:
  "service self \<noteq> ''gemini'' \<Longrightarrow> augmented self prompt (freepik_text_prompt prompt)"
  unfolding freepik_text_prompt_def
  by (rule augmented_template) (simp_all add: contains_refl)

lemma augmented_freepik_reference:
  "service self \<noteq> ''gemini'' \<Longrightarrow> augmented self prompt (freepik_reference_prompt prompt)"
proof -
  assume g: "service self \<noteq> ''gemini''"
  have "contains ''16:9'' (''. Keep the same layout and composition, only change the specified elements. Maintain professional YouTube thumbnail quality at 16:9 aspect ratio.'')"
    by simp
  then have a: "contains ''16:9'' (freepik_reference_prompt prompt)"
    unfolding freepik_reference_prompt_def
    by (intro contains_append_right)
  have "contains ''quality'' (''. Keep the same layout and composition, only change the specified elements. Maintain professional YouTube thumbnail quality at 16:9 aspect ratio.'')"
    by simp
  then have b: "contains ''quality'' (freepik_reference_prompt prompt)"
    unfolding freepik_reference_prompt_def
    by (intro contains_append_right)
  have c: "contains prompt (freepik_reference_prompt prompt)"
    unfolding freepik_reference_prompt_def by (rule contains_middle)
  from a b c g show ?thesis by (simp add: augmented_def)
qed

lemma augmented_replicate:
  "service self \<noteq> ''gemini'' \<Longrightarrow> augmented self prompt (replicate_prompt prompt)"
  unfolding replicate_prompt_def
  by (rule augmented_template) (simp_all add: contains_refl)

lemma augmented_fal:
  "service self \<noteq> ''gemini'' \<Longrightarrow> augmented self prompt (fal_prompt prompt)"
  unfolding fal_prompt_def
  by (rule augmented_template) (simp_all add: contains_refl)

lemma augmented_take:
  assumes "augmented self prompt (pre @ rest)" "contains ''16:9'' pre" "length pre \<le> 4000"
      and "service self = ''dalle''"
  shows "augmented self prompt (take 4000 (pre @ rest))"
proof -
  have a: "contains ''16:9'' (take 4000 (pre @ rest))"
    using assms(2,3) by (rule contains_take)
  have "take 4000 (pre @ rest) = pre @ rest" if "length (take 4000 (pre @ rest)) < 4000"
    using that by (rule take_short)
  with assms(1,4) a show ?thesis
    by (auto simp: augmented_def)
qed

lemma augmented_dalle_text:
  assumes "service self = ''dalle''"
  shows "augmented self prompt (take 4000 (dalle_text_prompt prompt))"
  unfolding dalle_text_prompt_def
proof (rule augmented_take [OF _ _ _ assms])
  show "augmented self prompt (''YouTube thumbnail style, 16:9 aspect ratio: '' @ prompt @
     ''. Professional, high quality, eye-catching, modern design'')"
    using assms by (intro augmented_template) (simp_all add: contains_refl)
qed simp_all


lemma augmented_dalle_context:
  assumes "service self = ''dalle''"
  shows "augmented self prompt (take 4000 (dalle_context_prompt d prompt))"
proof -
  define head :: string where
    "head = ''Create a YouTube thumbnail (16:9, 1792x1024) by RECREATING this exact layout with modifications:\<newline>\<newline>''"
  define mid :: string where
    "mid = box_line @ ''\<newline>ORIGINAL DESIGN TO REPLICATE:\<newline>'' @ d @ ''\<newline>'' @
           box_line @ ''\<newline>\<newline>SPECIFIC CHANGES TO MAKE:\<newline>''"
  define post :: string where
    "post = ''\<newline>\<newline>'' @ box_line @ ''\<newline>CRITICAL INSTRUCTIONS:\<newline>- KEEP the exact same layout structure and composition\<newline>- KEEP the same spatial arrangement (left/right/top/bottom positions)\<newline>- KEEP the same text placement and font styles\<newline>- ONLY change the elements specifically mentioned above\<newline>- Maintain professional YouTube thumbnail quality\<newline>- DO NOT create a completely new design\<newline>- RECREATE the original layout with ONLY the specified modifications''"
  have shape: "dalle_context_prompt d prompt = head @ (mid @ prompt @ post)"
    by (simp add: dalle_context_prompt_def head_def mid_def post_def)
  have c16: "contains ''16:9'' head" by (simp add: head_def)
  have len: "length head \<le> 4000" by (simp add: head_def)
  have q: "contains ''quality'' post"
    unfolding post_def by (intro contains_append_right) simp
  have "augmented self prompt ((head @ mid) @ prompt @ post)"
    using assms by (intro augmented_template contains_append_left c16 q contains_refl) simp
  then have "augmented self prompt (head @ (mid @ prompt @ post))" by simp
  from augmented_take [OF this c16 len assms] show ?thesis by (simp add: shape)
qed

lemma prompts_freepik_payload [simp]: "payload_prompts (freepik_payload t) = [t]"
  by (simp add: payload_prompts_def freepik_payload_def obj_field_def str_values_def
      List.map_filter_simps)

lemma prompts_freepik_reference:
  "list_all (\<lambda>(url, payload). payload_prompts payload = [t]) (freepik_reference_endpoints img t)"
  by (simp add: freepik_reference_endpoints_def payload_prompts_def obj_field_def str_values_def
      List.map_filter_simps)

lemma prompts_replicate:
  "list_all (\<lambda>(name, payload). payload_prompts payload = [t]) (replicate_models t img)"
  by (cases img) (simp_all add: replicate_models_def payload_prompts_def obj_field_def
      str_values_def List.map_filter_simps)

lemma prompts_fal [simp]: "payload_prompts (fal_arguments t img) = [t]"
  by (cases img) (simp_all add: fal_arguments_def payload_prompts_def obj_field_def
      str_values_def List.map_filter_simps)

lemma prompts_gemini:
  "payload_prompts (gemini_payload (gemini_content_parts w p rv)) = [p] \<or>
   payload_prompts (gemini_payload (gemini_content_parts w p rv)) = [''Edit this image to: '' @ p]"
  by (simp add: gemini_payload_def gemini_content_parts_def payload_prompts_def obj_field_def
      arr_items_def str_values_def List.map_filter_simps Let_def split: option.splits)

subsection \<open>Augmentation of the prompt\<close>

lemma posts_ok:
  assumes "list_all (\<lambda>(u, p). payload_prompts p = [t]) xs" "good t"
  shows "list_all (\<lambda>(u, p). prompts_ok good (HttpPost (f u) p)) xs"
  using assms by (induction xs) (auto simp: prompts_ok_def)

lemma prompts_ok_genai: "good t \<Longrightarrow> prompts_ok good (GenaiGenerate m t b)"
  by (simp add: prompts_ok_def)

lemma prompts_ok_post: "payload_prompts p = [t] \<Longrightarrow> good t \<Longrightarrow> prompts_ok good (HttpPost u p)"
  by (simp add: prompts_ok_def)

text \<open>
  Claim C4, as stated, fails: the instruction to avoid podcast microphones and
  headphones is not part of every provider's template. With the Replicate provider
  and the prompt \<open>a red car\<close>, both requests carry a prompt that mentions neither
  podcasts, microphones nor headphones, and no other field of the payload does.
\<close>

theorem replicate_prompt_counterexample:
  "generate offline_world (gen ''replicate'') ''a red car'' ''out.png'' RNone [] =
     (Inl (RequestException ''connection refused''),
      [HttpPost ''https://api.replicate.com/v1/predictions''
         (JObj [(''version'', JStr ''black-forest-labs/flux-dev''),
                (''input'',
                 JObj [(''prompt'', JStr ''YouTube thumbnail style, 16:9 landscape format: a red car. Professional, high quality, eye-catching design. Bold text, vibrant colors, modern aesthetic''),
                       (''aspect_ratio'', JStr ''16:9''),
                       (''num_outputs'', JNum 1),
                       (''output_format'', JStr ''png''),
                       (''output_quality'', JNum 90)])]),
       HttpPost ''https://api.replicate.com/v1/predictions''
         (JObj [(''version'', JStr ''stability-ai/sdxl:39ed52f2a78e934b3ba6e2a89f5b1c712de7dfea535525255b1aa35c5565e08b''),
                (''input'',
                 JObj [(''prompt'', JStr ''YouTube thumbnail style, 16:9 landscape format: a red car. Professional, high quality, eye-catching design. Bold text, vibrant colors, modern aesthetic''),
                       (''width'', JNum 1280),
                       (''height'', JNum 720),
                       (''num_outputs'', JNum 1),
                       (''num_inference_steps'', JNum 30),
                       (''guidance_scale'', JNum 7.5),
                       (''scheduler'', JStr ''K_EULER'')])])]) \<and>
   \<not> contains ''podcast'' ''YouTube thumbnail style, 16:9 landscape format: a red car. Professional, high quality, eye-catching design. Bold text, vibrant colors, modern aesthetic'' \<and>
   \<not> contains ''microphone'' ''YouTube thumbnail style, 16:9 landscape format: a red car. Professional, high quality, eye-catching design. Bold text, vibrant colors, modern aesthetic'' \<and>
   \<not> contains ''headphone'' ''YouTube thumbnail style, 16:9 landscape format: a red car. Professional, high quality, eye-catching design. Bold text, vibrant colors, modern aesthetic''"
proof -
  have v: "validate_reference (path_exists offline_world) RNone = RNone"
    by (simp add: validate_reference_def)
  have p: "http_post offline_world tr u pl = Inl (RequestException ''connection refused'')"
    for tr u pl by (simp add: offline_world_def)
  have g: "generate offline_world (gen ''replicate'') ''a red car'' ''out.png'' RNone [] =
     (Inl (RequestException ''connection refused''),
      map (\<lambda>(name, payload). HttpPost replicate_url payload)
        (replicate_models (replicate_prompt ''a red car'') None))"
    by (simp add: generate_def gen_def generate_replicate_def v replicate_models_def
        replicate_try_model_def p Let_def and_then_def)
  show ?thesis
    by (simp add: g replicate_models_def replicate_prompt_def replicate_url_def)
qed

text \<open>
  Claim C4, amended. Every prompt text that \<^verbatim>\<open>generate\<close> sends to a provider (the text
  of a Gemini SDK call, the prompt field of an HTTP or fal payload, the DALL-E prompt)
  names the aspect ratio 16:9; it contains the input prompt and a quality
  instruction, except possibly a DALL-E prompt that reached the cut at 4000
  characters; and for Gemini it also contains the instruction to avoid podcast
  microphones and headphones. The request to the vision model that describes a
  reference image for DALL-E is not a generation prompt and is not constrained.
\<close>

theorem prompt_is_augmented:
  "\<exists>r evs. generate w self prompt output_path reference_image_path tr = (r, tr @ evs) \<and>
            list_all (prompts_ok (augmented self prompt)) evs"
proof -
  let ?good = "augmented self prompt"
  let ?P = "prompts_ok ?good"
  obtain r tr' where g: "generate w self prompt output_path reference_image_path tr = (r, tr')"
    by (metis surj_pair)
  have q: "?P e" if "is_quiet e" for e using that by (rule quiet_prompts_ok)
  have "extends ?P tr tr'"
  proof -
    consider (freepik) "service self = ''freepik''" | (dalle) "service self = ''dalle''"
      | (gemini) "service self = ''gemini''" | (replicate) "service self = ''replicate''"
      | (fal) "service self = ''fal''"
      | (other) "service self \<notin> {''freepik'', ''dalle'', ''gemini'', ''replicate'', ''fal''}"
      by auto
    then show ?thesis
    proof cases
      case freepik
      then have ng: "service self \<noteq> ''gemini''" by simp
      from g freepik
      have g': "generate_freepik w self prompt output_path reference_image_path tr = (r, tr')"
        by (simp add: generate_def)
      have ref: "list_all (\<lambda>(url, payload). ?P (HttpPost url payload))
                   (freepik_reference_endpoints img (freepik_reference_prompt prompt))" for img
      proof -
        have "list_all (\<lambda>(u, p). payload_prompts p = [freepik_reference_prompt prompt])
                (freepik_reference_endpoints img (freepik_reference_prompt prompt))"
          by (rule prompts_freepik_reference)
        from posts_ok [where good = ?good and f = "\<lambda>u. u", OF this
            augmented_freepik_reference [OF ng]]
        show ?thesis by simp
      qed
      have post_ok: "?P (HttpPost ''https://api.freepik.com/v1/ai/text-to-image''
                         (freepik_payload (freepik_text_prompt prompt)))"
        using augmented_freepik_text [OF ng] by (simp add: prompts_ok_def)
      from q ref post_ok g' show ?thesis by (rule generate_freepik_extends)
    next
      case dalle
      from g dalle
      have "generate_dalle w self prompt output_path reference_image_path tr = (r, tr')"
        by (simp add: generate_def)
      from generate_dalle_trace [OF this] obtain pre sent evs where
        t: "tr' = tr @ pre @ ImagesGenerate sent # evs"
        and pre: "pre = [] \<or> (\<exists>d. pre = [ChatCompletion d])"
        and sent: "sent = take 4000 (dalle_text_prompt prompt) \<or>
                   (\<exists>description. sent = take 4000 (dalle_context_prompt description prompt))"
        and ev: "list_all is_quiet evs"
        by blast
      from pre have 1: "list_all ?P pre" by (auto simp: prompts_ok_def)
      from sent have 2: "?P (ImagesGenerate sent)"
        using augmented_dalle_text [OF dalle] augmented_dalle_context [OF dalle]
        by (auto simp: prompts_ok_def)
      from ev have 3: "list_all ?P evs" by (induction evs) (simp_all add: q)
      from 1 2 3 have "list_all ?P (pre @ ImagesGenerate sent # evs)" by simp
      with t show ?thesis unfolding extends_def by blast
    next
      case gemini
      from g gemini
      have g': "generate_gemini w self prompt output_path reference_image_path tr = (r, tr')"
        by (simp add: generate_def)
      have a: "?good p" if "p = gemini_enhanced_prompt prompt \<or>
                 p = gemini_enhanced_prompt (gemini_enhanced_prompt prompt)" for p
        using that augmented_gemini [OF contains_refl] augmented_gemini [OF contains_gemini]
        by blast
      have b: "?good (''Edit this image to: '' @ p)"
        if "p = gemini_enhanced_prompt prompt \<or>
            p = gemini_enhanced_prompt (gemini_enhanced_prompt prompt)" for p
        using a [OF that] by (rule augmented_prepend)
      have t: "?P (GenaiGenerate m p False) \<and> ?P (GenaiGenerate m (''Edit this image to: '' @ p) True)"
        if "p = gemini_enhanced_prompt prompt \<or>
            p = gemini_enhanced_prompt (gemini_enhanced_prompt prompt)" for m p
        using a [OF that] b [OF that] by (intro conjI prompts_ok_genai)
      have h: "?P (HttpPost u (gemini_payload (gemini_content_parts w p rv)))"
        if "p = gemini_enhanced_prompt prompt \<or>
            p = gemini_enhanced_prompt (gemini_enhanced_prompt prompt)" for u p rv
        using prompts_gemini [of w p rv] a [OF that] b [OF that]
        by (blast intro: prompts_ok_post)
      from q t h g' show ?thesis by (rule generate_gemini_extends)
    next
      case replicate
      then have ng: "service self \<noteq> ''gemini''" by simp
      from g replicate
      have g': "generate_replicate w self prompt output_path reference_image_path tr = (r, tr')"
        by (simp add: generate_def)
      have m: "list_all (\<lambda>(name, payload). ?P (HttpPost replicate_url payload))
                 (replicate_models (replicate_prompt prompt) img)" for img
      proof -
        have "list_all (\<lambda>(u, p). payload_prompts p = [replicate_prompt prompt])
                (replicate_models (replicate_prompt prompt) img)"
          by (rule prompts_replicate)
        from posts_ok [where good = ?good and f = "\<lambda>u. replicate_url", OF this
            augmented_replicate [OF ng]]
        show ?thesis by simp
      qed
      from q m g' show ?thesis by (rule generate_replicate_extends)
    next
      case fal
      then have ng: "service self \<noteq> ''gemini''" by simp
      from g fal
      have "generate_fal w self prompt output_path reference_image_path tr = (r, tr')"
        by (simp add: generate_def)
      from generate_fal_trace [OF this] show ?thesis
      proof
        assume "tr' = tr" then show ?thesis by simp
      next
        assume "\<exists>img evs. tr' = tr @ FalSubscribe (fal_arguments (fal_prompt prompt) img) # evs \<and>
                     list_all is_quiet evs"
        then obtain img evs where
          t: "tr' = tr @ FalSubscribe (fal_arguments (fal_prompt prompt) img) # evs"
          and ev: "list_all is_quiet evs" by blast
        from ev have "list_all ?P evs" by (induction evs) (simp_all add: q)
        with augmented_fal [OF ng]
        have "list_all ?P (FalSubscribe (fal_arguments (fal_prompt prompt) img) # evs)"
          by (simp add: prompts_ok_def)
        with t show ?thesis unfolding extends_def by blast
      qed
    next
      case other
      with g have "tr' = tr" by (auto simp: generate_def)
      then show ?thesis by simp
    qed
  qed
  with g show ?thesis by (auto simp: extends_def)
qed

theorem prompt_is_augmented_witness:
  "service (gen ''gemini'') = ''gemini'' \<and>
   (\<exists>r evs. generate offline_world (gen ''gemini'') ''a red car'' ''out.png'' RNone [] =
      (r, GenaiGenerate (hd gemini_models_to_try) (gemini_enhanced_prompt ''a red car'') False # evs)) \<and>
   augmented (gen ''gemini'') ''a red car'' (gemini_enhanced_prompt ''a red car'') \<and>
   contains ''16:9'' (gemini_enhanced_prompt ''a red car'') \<and>
   contains ''a red car'' (gemini_enhanced_prompt ''a red car'') \<and>
   contains ''quality'' (gemini_enhanced_prompt ''a red car'') \<and>
   contains ''Avoid: podcast microphones, headphones'' (gemini_enhanced_prompt ''a red car'')"
proof -
  let ?g = "generate offline_world (gen ''gemini'') ''a red car'' ''out.png'' RNone []"
  have s: "service (gen ''gemini'') = ''gemini''" by (simp add: gen_def)
  from prompt_is_augmented [of offline_world "gen ''gemini''" "''a red car''" "''out.png''" RNone "[]"]
  obtain r evs where g: "?g = (r, evs)"
    and ok: "list_all (prompts_ok (augmented (gen ''gemini'') ''a red car'')) evs"
    by auto
  from g s have "generate_gemini offline_world (gen ''gemini'') ''a red car'' ''out.png'' RNone [] = (r, evs)"
    by (simp add: generate_def)
  from generate_gemini_no_reference [OF this] obtain evs' where
    e: "evs = GenaiGenerate (hd gemini_models_to_try) (gemini_enhanced_prompt ''a red car'') False # evs'"
    by auto
  from ok e have a: "augmented (gen ''gemini'') ''a red car'' (gemini_enhanced_prompt ''a red car'')"
    by (simp add: prompts_ok_def)
  from g e have x: "\<exists>r evs. ?g =
      (r, GenaiGenerate (hd gemini_models_to_try) (gemini_enhanced_prompt ''a red car'') False # evs)"
    by blast
  from a s have c: "contains ''16:9'' (gemini_enhanced_prompt ''a red car'')"
    "contains ''a red car'' (gemini_enhanced_prompt ''a red car'')"
    "contains ''quality'' (gemini_enhanced_prompt ''a red car'')"
    "contains ''Avoid: podcast microphones, headphones'' (gemini_enhanced_prompt ''a red car'')"
    unfolding augmented_def by simp_all
  from s x a c show ?thesis by (intro conjI)
qed

end
